theory Spec2Isabelle
  imports Complex_Main "HOL-Library.AList" "HOL-Library.Multiset"
begin

section \<open>Topology elements: \<open>Bond\<close>\<close>

text \<open>
  \<open>crimm/StructEntities/TopoElements.py\<close>. A \<open>Bond\<close> is a 2-tuple of atoms with the
  attributes \<open>type\<close>, \<open>order\<close>, \<open>param\<close> and \<open>full_id\<close>. Of an atom the constructor
  reads one attribute only, \<open>full_id\<close>; an atom is a record with that field, and every
  extension of the record is an atom too. A \<open>full_id\<close> that was never computed is
  \<open>None\<close>, and Python 3 raises \<open>TypeError\<close> when \<open>None\<close> is compared by \<open>a > b\<close>.
\<close>

datatype py_obj = NoneObj | Str string | BuiltinType

type_synonym res_id = "string \<times> int \<times> string"

text \<open>
  The exceptions of the code. A \<open>PDBConstructionException\<close> carries what its message
  is formatted from.
\<close>

datatype construction_error =
    BlankAltlocs string string int string
  | AtomDefinedTwice string

datatype py_error =
    TypeError | AttributeError | KeyError | IndexError | AssertionError
  | PDBConstructionException construction_error
  | StaleCursor

record 'i topo_atom =
  full_id :: "'i option"

record ('i, 'z) Bond =
  atom1 :: "('i, 'z) topo_atom_scheme"
  atom2 :: "('i, 'z) topo_atom_scheme"
  bond_type :: py_obj
  order :: "int option"
  param :: py_obj
  bond_full_id :: "'i \<times> 'i"

text \<open>The class attribute \<open>bond_order_dict\<close>; its keys are the four strings.\<close>

definition bond_order_dict :: "py_obj \<rightharpoonup> int" where
  "bond_order_dict =
     [Str ''single'' \<mapsto> 1, Str ''double'' \<mapsto> 2, Str ''triple'' \<mapsto> 3, Str ''aromatic'' \<mapsto> 2]"

text \<open>
  \<open>TopoEntity._create_full_id\<close> on a 2-tuple: the ids of the two atoms, reversed when
  the first is greater than the last.
\<close>

definition create_full_id ::
  "('i::linorder, 'z) topo_atom_scheme \<Rightarrow> ('i, 'z) topo_atom_scheme \<Rightarrow> py_error + ('i \<times> 'i)" where
  "create_full_id a b =
     (case (full_id a, full_id b) of
        (Some i, Some j) \<Rightarrow> if i > j then Inr (j, i) else Inr (i, j)
      | _ \<Rightarrow> Inl TypeError)"

text \<open>
  \<open>Bond.__new__\<close>. The order is looked up with \<open>cls.bond_order_dict.get(type)\<close>, where
  \<open>type\<close> is the builtin (the parameter is called \<open>bond_type\<close>), so the key handed to
  \<open>get\<close> is \<open>BuiltinType\<close> whatever \<open>bond_type\<close> is.
\<close>

definition Bond_new ::
  "('i::linorder, 'z) topo_atom_scheme \<Rightarrow> ('i, 'z) topo_atom_scheme \<Rightarrow> py_obj \<Rightarrow> py_obj
     \<Rightarrow> py_error + ('i, 'z) Bond" where
  "Bond_new a1 a2 btype prm =
     (case create_full_id a1 a2 of
        Inl e \<Rightarrow> Inl e
      | Inr fid \<Rightarrow>
          Inr \<lparr>atom1 = a1, atom2 = a2, bond_type = btype,
               order = bond_order_dict BuiltinType, param = prm, bond_full_id = fid\<rparr>)"

section \<open>The structure hierarchy\<close>

text \<open>
  \<open>ChmStructureBuilder.py\<close> builds a tree of the container classes of the PDB library
  it imports (\<open>Bio.PDB\<close>: \<open>Entity\<close>, \<open>Model\<close>, \<open>Chain\<close>, \<open>Residue\<close>, \<open>DisorderedResidue\<close>,
  \<open>Atom\<close>, \<open>DisorderedAtom\<close>). The library is no part of the sources at hand; its classes
  are written down here by what their methods do, and a \<open>PeptideChain\<close> is taken to be
  a \<open>Chain\<close> in all that the builder calls but \<open>find_het_by_seq\<close> and \<open>update\<close>.

  A Model holds Chains, a Chain holds Residues and DisorderedResidues, a Residue holds
  Atoms and DisorderedAtoms. A container (\<open>Entity\<close>) keeps its children in \<open>child_list\<close>,
  in the order they were added, and indexes them by id in \<open>child_dict\<close>. The model keeps
  the list; \<open>has_id\<close> and item access look an id up in it, and \<open>detach_child\<close> removes
  the id from it, so that a list with distinct ids stands for the pair of list and index.
  A disordered wrapper keeps \<open>child_dict\<close> only, a Python dict in insertion order: an
  association list, read with \<open>map_of\<close> and written with \<open>AList.update\<close>.

  Parent links are the position in the tree. A floating-point number is the rational it
  denotes, and \<open>None\<close> in its place is \<open>None\<close>.
\<close>

record Atom =
  name :: string
  coord :: "rat list"
  bfactor :: "rat option"
  occupancy :: "rat option"
  altloc :: string
  fullname :: string
  serial_number :: "int option"
  element :: "string option"
  pqr_charge :: "rat option"
  radius :: "rat option"
  disordered_flag :: bool

record DisorderedAtom =
  da_id :: string
  da_child_dict :: "(string \<times> Atom) list"
  da_selected_child :: "Atom option"
  last_occupancy :: rat

datatype atom_node = AtomNode Atom | DisorderedAtomNode DisorderedAtom

record Residue =
  r_id :: res_id
  resname :: string
  segid :: string
  disordered :: bool
  r_child_list :: "atom_node list"

record DisorderedResidue =
  dr_id :: res_id
  dr_child_dict :: "(string \<times> Residue) list"
  dr_selected_child :: "string option"

datatype res_node = ResidueNode Residue | DisorderedResidueNode DisorderedResidue

record Chain =
  c_id :: string
  c_child_list :: "res_node list"

record Model =
  m_id :: int
  m_child_list :: "Chain list"

fun atom_node_id :: "atom_node \<Rightarrow> string" where
  "atom_node_id (AtomNode a) = name a"
| "atom_node_id (DisorderedAtomNode d) = da_id d"

fun res_node_id :: "res_node \<Rightarrow> res_id" where
  "res_node_id (ResidueNode r) = r_id r"
| "res_node_id (DisorderedResidueNode g) = dr_id g"

subsection \<open>\<open>Entity\<close>: children by id\<close>

definition has_id :: "('a \<Rightarrow> 'k) \<Rightarrow> 'a list \<Rightarrow> 'k \<Rightarrow> bool" where
  "has_id key xs k = (k \<in> set (map key xs))"

definition get_item :: "('a \<Rightarrow> 'k) \<Rightarrow> 'a list \<Rightarrow> 'k \<Rightarrow> 'a option" where
  "get_item key xs k = find (\<lambda>x. key x = k) xs"

definition detach_child :: "('a \<Rightarrow> 'k) \<Rightarrow> 'k \<Rightarrow> 'a list \<Rightarrow> 'a list" where
  "detach_child key k xs = filter (\<lambda>x. key x \<noteq> k) xs"

text \<open>A method called on the child stored under an id changes that child in place.\<close>

definition update_child :: "('a \<Rightarrow> 'k) \<Rightarrow> 'k \<Rightarrow> ('a \<Rightarrow> 'a) \<Rightarrow> 'a list \<Rightarrow> 'a list" where
  "update_child key k f xs = map (\<lambda>x. if key x = k then f x else x) xs"

subsection \<open>Atoms and DisorderedAtom\<close>

text \<open>\<open>-sys.maxsize\<close>, the occupancy a new DisorderedAtom starts from.\<close>

definition minus_maxsize :: rat where
  "minus_maxsize = - (2 ^ 63 - 1)"

definition DisorderedAtom_new :: "string \<Rightarrow> DisorderedAtom" where
  "DisorderedAtom_new i =
     \<lparr>da_id = i, da_child_dict = [], da_selected_child = None, last_occupancy = minus_maxsize\<rparr>"

text \<open>
  \<open>DisorderedAtom.disordered_add\<close>: flag the atom, store it under its altloc, and select
  it when its occupancy is greater than the last one selected. The comparison raises
  \<open>TypeError\<close> for an occupancy of \<open>None\<close>, after the atom was stored.
\<close>

definition da_disordered_add :: "Atom \<Rightarrow> DisorderedAtom \<Rightarrow> py_error option \<times> DisorderedAtom" where
  "da_disordered_add a d =
     (let a' = a\<lparr>disordered_flag := True\<rparr>;
          d' = d\<lparr>da_child_dict := AList.update (altloc a') a' (da_child_dict d)\<rparr>
      in case occupancy a' of
           None \<Rightarrow> (Some TypeError, d')
         | Some occ \<Rightarrow>
             if occ > last_occupancy d
             then (None, d'\<lparr>last_occupancy := occ, da_selected_child := Some a'\<rparr>)
             else (None, d'))"

text \<open>
  \<open>get_fullname\<close> of a child of a residue: an Atom answers itself, a DisorderedAtom
  forwards the call to its selected child and fails when there is none.
\<close>

fun get_fullname :: "atom_node \<Rightarrow> py_error + string" where
  "get_fullname (AtomNode a) = Inr (fullname a)"
| "get_fullname (DisorderedAtomNode d) =
     (case da_selected_child d of None \<Rightarrow> Inl AttributeError | Some a \<Rightarrow> Inr (fullname a))"

text \<open>
  \<open>Residue.get_unpacked_list\<close>: the atoms of a residue with every DisorderedAtom replaced
  by its children. \<open>is_disordered()\<close> is the flag of an Atom and 2 for a DisorderedAtom;
  an Atom whose flag is set is asked for \<open>disordered_get_list\<close>, which it does not have.
\<close>

fun get_unpacked_list :: "atom_node list \<Rightarrow> py_error + Atom list" where
  "get_unpacked_list [] = Inr []"
| "get_unpacked_list (AtomNode a # ns) =
     (if disordered_flag a then Inl AttributeError
      else case get_unpacked_list ns of Inl e \<Rightarrow> Inl e | Inr as \<Rightarrow> Inr (a # as))"
| "get_unpacked_list (DisorderedAtomNode d # ns) =
     (case get_unpacked_list ns of
        Inl e \<Rightarrow> Inl e
      | Inr as \<Rightarrow> Inr (map snd (da_child_dict d) @ as))"

text \<open>\<open>StructureBuilder._is_completely_disordered\<close>: no atom has a blank altloc.\<close>

definition is_completely_disordered :: "Residue \<Rightarrow> py_error + bool" where
  "is_completely_disordered r =
     (case get_unpacked_list (r_child_list r) of
        Inl e \<Rightarrow> Inl e
      | Inr as \<Rightarrow> Inr (list_all (\<lambda>a. altloc a \<noteq> '' '') as))"

subsection \<open>DisorderedResidue\<close>

definition DisorderedResidue_new :: "res_id \<Rightarrow> DisorderedResidue" where
  "DisorderedResidue_new k = \<lparr>dr_id = k, dr_child_dict = [], dr_selected_child = None\<rparr>"

definition Residue_new :: "res_id \<Rightarrow> string \<Rightarrow> string \<Rightarrow> Residue" where
  "Residue_new k rn sg =
     \<lparr>r_id = k, resname = rn, segid = sg, disordered = False, r_child_list = []\<rparr>"

definition disordered_has_id :: "DisorderedResidue \<Rightarrow> string \<Rightarrow> bool" where
  "disordered_has_id g rn = (rn \<in> set (map fst (dr_child_dict g)))"

text \<open>\<open>disordered_select\<close> is called with a key of \<open>child_dict\<close> only.\<close>

definition disordered_select :: "string \<Rightarrow> DisorderedResidue \<Rightarrow> DisorderedResidue" where
  "disordered_select rn g = g\<lparr>dr_selected_child := Some rn\<rparr>"

definition disordered_get :: "DisorderedResidue \<Rightarrow> Residue option" where
  "disordered_get g =
     (case dr_selected_child g of None \<Rightarrow> None | Some rn \<Rightarrow> map_of (dr_child_dict g) rn)"

text \<open>
  \<open>DisorderedResidue.disordered_add\<close>: asserts that the residue name is new, stores the
  residue under its name and selects it.
\<close>

definition dr_disordered_add :: "Residue \<Rightarrow> DisorderedResidue \<Rightarrow> py_error + DisorderedResidue" where
  "dr_disordered_add r g =
     (if disordered_has_id g (resname r) then Inl AssertionError
      else Inr (disordered_select (resname r)
                  (g\<lparr>dr_child_dict := AList.update (resname r) r (dr_child_dict g)\<rparr>)))"

text \<open>
  A DisorderedResidue forwards \<open>has_id\<close>, item access, \<open>detach_child\<close> and
  \<open>flag_disordered\<close> to its selected child, so the residue that an atom event works on
  is the node itself or the selected child of the node; without a selected child the
  forwarding fails.
\<close>

fun selected_residue :: "res_node \<Rightarrow> Residue option" where
  "selected_residue (ResidueNode r) = Some r"
| "selected_residue (DisorderedResidueNode g) = disordered_get g"

fun put_selected :: "Residue \<Rightarrow> res_node \<Rightarrow> res_node" where
  "put_selected r' (ResidueNode r) = ResidueNode r'"
| "put_selected r' (DisorderedResidueNode g) =
     (case dr_selected_child g of
        None \<Rightarrow> DisorderedResidueNode g
      | Some rn \<Rightarrow> DisorderedResidueNode (g\<lparr>dr_child_dict := AList.update rn r' (dr_child_dict g)\<rparr>))"

fun is_wrapper :: "res_node \<Rightarrow> bool" where
  "is_wrapper (ResidueNode r) = False"
| "is_wrapper (DisorderedResidueNode g) = True"

text \<open>
  \<open>Residue.add\<close> refuses an id that is present. \<open>DisorderedResidue.add\<close> passes a
  DisorderedAtom on to the selected child; any other atom it adds to the selected child
  all the same and then raises.
\<close>

definition Residue_add :: "atom_node \<Rightarrow> Residue \<Rightarrow> py_error + Residue" where
  "Residue_add n r =
     (if has_id atom_node_id (r_child_list r) (atom_node_id n)
      then Inl (PDBConstructionException (AtomDefinedTwice (atom_node_id n)))
      else Inr (r\<lparr>r_child_list := r_child_list r @ [n]\<rparr>))"

fun residue_add :: "bool \<Rightarrow> atom_node \<Rightarrow> Residue \<Rightarrow> py_error option \<times> Residue" where
  "residue_add False n r =
     (case Residue_add n r of Inl e \<Rightarrow> (Some e, r) | Inr r' \<Rightarrow> (None, r'))"
| "residue_add True (DisorderedAtomNode d) r =
     (case Residue_add (DisorderedAtomNode d) r of Inl e \<Rightarrow> (Some e, r) | Inr r' \<Rightarrow> (None, r'))"
| "residue_add True (AtomNode a) r =
     (case Residue_add (AtomNode a) r of
        Inl e \<Rightarrow> (Some e, r)
      | Inr r' \<Rightarrow>
          (case r_id r of (het, resseq, icode) \<Rightarrow>
             (Some (PDBConstructionException (BlankAltlocs (resname r) het resseq icode)), r')))"

section \<open>The builder\<close>

text \<open>
  The builder holds the hierarchy under construction and its cursors. \<open>__init__\<close> sets
  \<open>line_counter\<close> only; an attribute that was never assigned is \<open>None\<close> here, and
  \<open>self.residue\<close>, which the code also sets to Python's \<open>None\<close>, has a value for each
  of the three. A cursor is the path of the object it refers to: the id of the chain in
  the model, and the id of the chain with the id of the residue node in it.
  \<open>StaleCursor\<close> is the outcome at a path that leads nowhere; it is not an exception of
  the code. Warnings go to a log.
\<close>

datatype warning =
    ChainDiscontinuous string int
  | ResidueRedefined string int string int
  | ResidueAlreadyDefined string int string string int
  | AtomNamesDifferInSpaces string string int
  | BlankAltlocBeforeDisorder int

datatype residue_ref = Unset | RefNone | Ref string res_id

record builder =
  self_line_counter :: int
  self_model :: "Model option"
  self_chain :: "string option"
  self_segid :: "string option"
  self_residue :: residue_ref
  self_atom :: "Atom option"
  warnings :: "warning list"

datatype outcome = Return builder | Raise py_error builder

fun state_of :: "outcome \<Rightarrow> builder" where
  "state_of (Return b) = b"
| "state_of (Raise e b) = b"

definition warn :: "warning \<Rightarrow> builder \<Rightarrow> builder" where
  "warn w b = b\<lparr>warnings := warnings b @ [w]\<rparr>"

definition get_chain :: "builder \<Rightarrow> string \<Rightarrow> Chain option" where
  "get_chain b cid =
     (case self_model b of None \<Rightarrow> None | Some m \<Rightarrow> get_item c_id (m_child_list m) cid)"

definition update_chain :: "string \<Rightarrow> (Chain \<Rightarrow> Chain) \<Rightarrow> builder \<Rightarrow> builder" where
  "update_chain cid f b =
     b\<lparr>self_model :=
         map_option (\<lambda>m. m\<lparr>m_child_list := update_child c_id cid f (m_child_list m)\<rparr>)
           (self_model b)\<rparr>"

definition get_node :: "builder \<Rightarrow> string \<Rightarrow> res_id \<Rightarrow> res_node option" where
  "get_node b cid k =
     (case get_chain b cid of None \<Rightarrow> None | Some c \<Rightarrow> get_item res_node_id (c_child_list c) k)"

definition update_node :: "string \<Rightarrow> res_id \<Rightarrow> (res_node \<Rightarrow> res_node) \<Rightarrow> builder \<Rightarrow> builder" where
  "update_node cid k f =
     update_chain cid (\<lambda>c. c\<lparr>c_child_list := update_child res_node_id k f (c_child_list c)\<rparr>)"

subsection \<open>\<open>init_chain\<close>, \<open>init_seg\<close>, \<open>finish_chain_construction\<close>\<close>

definition PeptideChain_new :: "string \<Rightarrow> Chain" where
  "PeptideChain_new cid = \<lparr>c_id = cid, c_child_list = []\<rparr>"

definition init_chain :: "string \<Rightarrow> builder \<Rightarrow> outcome" where
  "init_chain chain_id b =
     (case self_model b of
        None \<Rightarrow> Raise AttributeError b
      | Some m \<Rightarrow>
          if has_id c_id (m_child_list m) chain_id
          then Return (warn (ChainDiscontinuous chain_id (self_line_counter b))
                         (b\<lparr>self_chain := Some chain_id\<rparr>))
          else Return (b\<lparr>self_chain := Some chain_id,
                          self_model :=
                            Some (m\<lparr>m_child_list := m_child_list m @ [PeptideChain_new chain_id]\<rparr>)\<rparr>))"

definition init_seg :: "string \<Rightarrow> builder \<Rightarrow> outcome" where
  "init_seg sg b = Return (b\<lparr>self_segid := Some sg\<rparr>)"

text \<open>
  \<open>reset_disordered_res\<close>: one pass over the items of \<open>child_dict\<close>, selecting every
  child whose id is the id of the wrapper, so the last of them stays selected.
\<close>

definition reset_disordered_res :: "DisorderedResidue \<Rightarrow> DisorderedResidue" where
  "reset_disordered_res g =
     fold (\<lambda>(rn, child) g'. if r_id child = dr_id g' then disordered_select rn g' else g')
       (dr_child_dict g) g"

fun reset_node :: "res_node \<Rightarrow> res_node" where
  "reset_node (ResidueNode r) = ResidueNode r"
| "reset_node (DisorderedResidueNode g) = DisorderedResidueNode (reset_disordered_res g)"

text \<open>
  \<open>finish_chain_construction\<close>. \<open>PeptideChain.update\<close> is not part of the sources at
  hand; it is the parameter \<open>update\<close>.
\<close>

definition finish_chain_construction :: "(Chain \<Rightarrow> Chain) \<Rightarrow> builder \<Rightarrow> outcome" where
  "finish_chain_construction update b =
     (case self_chain b of
        None \<Rightarrow> Return b
      | Some cid \<Rightarrow>
          (case get_chain b cid of
             None \<Rightarrow> Raise StaleCursor b
           | Some c \<Rightarrow>
               Return (update_chain cid
                         (\<lambda>c. update (c\<lparr>c_child_list := map reset_node (c_child_list c)\<rparr>)) b)))"

subsection \<open>\<open>init_residue\<close>\<close>

text \<open>
  \<open>process_disordered_res\<close>, for the chain \<open>cid\<close> that \<open>self.chain\<close> refers to and a
  node \<open>duplicate_residue\<close> of that chain. \<open>is_disordered()\<close> is 2 for a
  DisorderedResidue and the flag of a Residue. In the last branch the duplicate is
  detached before the new Residue is made, and making it reads \<open>self.segid\<close>; the
  new DisorderedResidue is added to the chain before the two residues are added to it.
\<close>

definition process_disordered_res ::
  "string \<Rightarrow> res_node \<Rightarrow> res_id \<Rightarrow> string \<Rightarrow> builder \<Rightarrow> outcome" where
  "process_disordered_res cid duplicate_residue res_id rn b =
     (case res_id of (field, resseq, icode) \<Rightarrow>
      (case duplicate_residue of
         DisorderedResidueNode g \<Rightarrow>
           if disordered_has_id g rn
           then Return (update_node cid (dr_id g)
                          (\<lambda>n. DisorderedResidueNode (disordered_select rn g))
                          (b\<lparr>self_residue := Ref cid (dr_id g)\<rparr>))
           else
             (case self_segid b of
                None \<Rightarrow> Raise AttributeError b
              | Some sg \<Rightarrow>
                  (case dr_disordered_add (Residue_new res_id rn sg) g of
                     Inl e \<Rightarrow> Raise e b
                   | Inr g1 \<Rightarrow>
                       Return (update_node cid (dr_id g) (\<lambda>n. DisorderedResidueNode g1)
                                 (b\<lparr>self_residue := Ref cid (dr_id g)\<rparr>))))
       | ResidueNode r \<Rightarrow>
           if rn = resname r
           then Return (warn (ResidueAlreadyDefined field resseq icode rn (self_line_counter b)) b
                          \<lparr>self_residue := Ref cid (r_id r)\<rparr>)
           else
             (case is_completely_disordered r of
                Inl e \<Rightarrow> Raise e b
              | Inr False \<Rightarrow>
                  Raise (PDBConstructionException (BlankAltlocs rn field resseq icode))
                    (b\<lparr>self_residue := RefNone\<rparr>)
              | Inr True \<Rightarrow>
                  (let b1 = update_chain cid
                              (\<lambda>c. c\<lparr>c_child_list :=
                                        detach_child res_node_id (r_id r) (c_child_list c)\<rparr>) b;
                       with_group = (\<lambda>g. update_chain cid
                              (\<lambda>c. c\<lparr>c_child_list :=
                                        c_child_list c @ [DisorderedResidueNode g]\<rparr>) b1)
                   in case self_segid b of
                        None \<Rightarrow> Raise AttributeError b1
                      | Some sg \<Rightarrow>
                          (case dr_disordered_add r (DisorderedResidue_new (r_id r)) of
                             Inl e \<Rightarrow> Raise e (with_group (DisorderedResidue_new (r_id r)))
                           | Inr g1 \<Rightarrow>
                               (case dr_disordered_add (Residue_new res_id rn sg) g1 of
                                  Inl e \<Rightarrow> Raise e (with_group g1)
                                | Inr g2 \<Rightarrow>
                                    Return (with_group g2
                                            \<lparr>self_residue := Ref cid (r_id r)\<rparr>)))))))"

definition process_duplicate_res :: "string \<Rightarrow> Chain \<Rightarrow> res_id \<Rightarrow> string \<Rightarrow> builder \<Rightarrow> outcome" where
  "process_duplicate_res cid c res_id rn b =
     (case res_id of (field, resseq, icode) \<Rightarrow>
        (let b1 = warn (ResidueRedefined field resseq icode (self_line_counter b)) b
         in case get_item res_node_id (c_child_list c) res_id of
              None \<Rightarrow> Raise KeyError b1
            | Some duplicate_residue \<Rightarrow> process_disordered_res cid duplicate_residue res_id rn b1))"

text \<open>
  \<open>process_duplicate_het\<close>. \<open>PeptideChain.find_het_by_seq\<close> is not part of the sources
  at hand; it is the parameter \<open>find_het_by_seq\<close>, from a chain and a sequence number
  to a list of residue ids. The caller has checked that the list is not empty.
\<close>

definition process_duplicate_het ::
  "(Chain \<Rightarrow> int \<Rightarrow> res_id list) \<Rightarrow> string \<Rightarrow> Chain \<Rightarrow> res_id \<Rightarrow> string \<Rightarrow> builder \<Rightarrow> outcome" where
  "process_duplicate_het find_het_by_seq cid c res_id rn b =
     (case find_het_by_seq c (fst (snd res_id)) of
        [] \<Rightarrow> Raise IndexError b
      | het_res_id # _ \<Rightarrow>
          (case get_item res_node_id (c_child_list c) het_res_id of
             None \<Rightarrow> Raise KeyError b
           | Some duplicate_residue \<Rightarrow> process_disordered_res cid duplicate_residue res_id rn b))"

text \<open>The hetero field of the residue id, lines 174 to 177 of \<open>init_residue\<close>.\<close>

definition hetero_field :: "string \<Rightarrow> string \<Rightarrow> string" where
  "hetero_field rn field =
     (if field \<noteq> '' '' then (if field = ''H'' then ''H_'' @ rn else field) else field)"

definition init_residue ::
  "(Chain \<Rightarrow> int \<Rightarrow> res_id list) \<Rightarrow> string \<Rightarrow> string \<Rightarrow> int \<Rightarrow> string \<Rightarrow> builder \<Rightarrow> outcome" where
  "init_residue find_het_by_seq rn field resseq icode b =
     (let res_id = (hetero_field rn field, resseq, icode)
      in case self_chain b of
           None \<Rightarrow> Raise AttributeError b
         | Some cid \<Rightarrow>
             (case get_chain b cid of
                None \<Rightarrow> Raise StaleCursor b
              | Some c \<Rightarrow>
                  if has_id res_node_id (c_child_list c) res_id
                  then process_duplicate_res cid c res_id rn b
                  else if length (find_het_by_seq c resseq) > 0
                  then process_duplicate_het find_het_by_seq cid c res_id rn b
                  else
                    (case self_segid b of
                       None \<Rightarrow> Raise AttributeError b
                     | Some sg \<Rightarrow>
                         Return (update_chain cid
                                   (\<lambda>c. c\<lparr>c_child_list :=
                                             c_child_list c @ [ResidueNode (Residue_new res_id rn sg)]\<rparr>)
                                   b
                                 \<lparr>self_residue := Ref cid res_id\<rparr>))))"

subsection \<open>\<open>init_atom\<close>\<close>

text \<open>The arguments of \<open>init_atom\<close>, one atom record of the input.\<close>

record atom_record =
  arg_name :: string
  arg_coord :: "rat list"
  arg_b_factor :: "rat option"
  arg_occupancy :: "rat option"
  arg_altloc :: string
  arg_fullname :: string
  arg_serial_number :: "int option"
  arg_element :: "string option"
  arg_pqr_charge :: "rat option"
  arg_radius :: "rat option"
  arg_is_pqr :: bool

text \<open>
  Lines 227 to 238: the name the atom is made with. When the residue has a child under
  the name and the full name of that child is another one, the full name is taken and
  a warning is given.
\<close>

definition choose_name :: "int \<Rightarrow> Residue \<Rightarrow> atom_record \<Rightarrow> py_error + string \<times> warning list" where
  "choose_name line res rc =
     (case get_item atom_node_id (r_child_list res) (arg_name rc) of
        None \<Rightarrow> Inr (arg_name rc, [])
      | Some duplicate_atom \<Rightarrow>
          (case get_fullname duplicate_atom of
             Inl e \<Rightarrow> Inl e
           | Inr duplicate_fullname \<Rightarrow>
               if duplicate_fullname \<noteq> arg_fullname rc
               then Inr (arg_fullname rc,
                         [AtomNamesDifferInSpaces duplicate_fullname (arg_fullname rc) line])
               else Inr (arg_name rc, [])))"

text \<open>Lines 239 to 262: the Atom, without B factor and occupancy in PQR mode.\<close>

definition make_atom :: "string \<Rightarrow> atom_record \<Rightarrow> Atom" where
  "make_atom nm rc =
     (if \<not> arg_is_pqr rc
      then \<lparr>name = nm, coord = arg_coord rc, bfactor = arg_b_factor rc,
            occupancy = arg_occupancy rc, altloc = arg_altloc rc, fullname = arg_fullname rc,
            serial_number = arg_serial_number rc, element = arg_element rc,
            pqr_charge = None, radius = None, disordered_flag = False\<rparr>
      else \<lparr>name = nm, coord = arg_coord rc, bfactor = None,
            occupancy = None, altloc = arg_altloc rc, fullname = arg_fullname rc,
            serial_number = arg_serial_number rc, element = arg_element rc,
            pqr_charge = arg_pqr_charge rc, radius = arg_radius rc, disordered_flag = False\<rparr>)"

text \<open>
  Lines 263 to 298, on the residue the calls reach: the error raised if any, the residue,
  the warnings, and the atom as \<open>self.atom\<close> sees it afterwards. \<open>wrapped\<close> says that
  \<open>self.residue\<close> is a DisorderedResidue. \<open>has_id\<close> followed by item access is one
  lookup; a plain Atom never answers 2 to \<open>is_disordered()\<close>; and \<open>add\<close> of a new
  DisorderedAtom meets no child of its id, which is free or was just detached.
\<close>

definition place_atom ::
  "bool \<Rightarrow> int \<Rightarrow> Atom \<Rightarrow> Residue \<Rightarrow> py_error option \<times> Residue \<times> warning list \<times> Atom" where
  "place_atom wrapped line a res =
     (if altloc a \<noteq> '' '' then
        (case get_item atom_node_id (r_child_list res) (name a) of
           Some (DisorderedAtomNode d) \<Rightarrow>
             (case da_disordered_add a d of (e, d') \<Rightarrow>
                (e,
                 res\<lparr>r_child_list :=
                       update_child atom_node_id (name a) (\<lambda>n. DisorderedAtomNode d')
                         (r_child_list res)\<rparr>,
                 [], a\<lparr>disordered_flag := True\<rparr>))
         | Some (AtomNode duplicate_atom) \<Rightarrow>
             (let rest = detach_child atom_node_id (name a) (r_child_list res)
              in case da_disordered_add a (DisorderedAtom_new (name a)) of
                   (Some e, d1) \<Rightarrow>
                     (Some e, res\<lparr>r_child_list := rest @ [DisorderedAtomNode d1]\<rparr>,
                      [], a\<lparr>disordered_flag := True\<rparr>)
                 | (None, d1) \<Rightarrow>
                     (case da_disordered_add duplicate_atom d1 of
                        (Some e, d2) \<Rightarrow>
                          (Some e, res\<lparr>r_child_list := rest @ [DisorderedAtomNode d2]\<rparr>,
                           [], a\<lparr>disordered_flag := True\<rparr>)
                      | (None, d2) \<Rightarrow>
                          (None,
                           res\<lparr>r_child_list := rest @ [DisorderedAtomNode d2],
                               disordered := True\<rparr>,
                           [BlankAltlocBeforeDisorder line], a\<lparr>disordered_flag := True\<rparr>)))
         | None \<Rightarrow>
             (case da_disordered_add a (DisorderedAtom_new (name a)) of
                (Some e, d1) \<Rightarrow>
                  (Some e, res\<lparr>r_child_list := r_child_list res @ [DisorderedAtomNode d1]\<rparr>,
                   [], a\<lparr>disordered_flag := True\<rparr>)
              | (None, d1) \<Rightarrow>
                  (None,
                   res\<lparr>r_child_list := r_child_list res @ [DisorderedAtomNode d1],
                       disordered := True\<rparr>,
                   [], a\<lparr>disordered_flag := True\<rparr>)))
      else
        (case residue_add wrapped (AtomNode a) res of (e, res') \<Rightarrow> (e, res', [], a)))"

definition init_atom :: "atom_record \<Rightarrow> builder \<Rightarrow> outcome" where
  "init_atom rc b =
     (case self_residue b of
        Unset \<Rightarrow> Raise AttributeError b
      | RefNone \<Rightarrow> Return b
      | Ref cid k \<Rightarrow>
          (case get_node b cid k of
             None \<Rightarrow> Raise StaleCursor b
           | Some node \<Rightarrow>
               (case selected_residue node of
                  None \<Rightarrow> Raise AttributeError b
                | Some res \<Rightarrow>
                    (case choose_name (self_line_counter b) res rc of
                       Inl e \<Rightarrow> Raise e b
                     | Inr (nm, ws) \<Rightarrow>
                         (case place_atom (is_wrapper node) (self_line_counter b)
                                 (make_atom nm rc) res of
                            (e, res', ws', a') \<Rightarrow>
                              (let b' = update_node cid k (put_selected res')
                                          (b\<lparr>self_atom := Some a',
                                             warnings := warnings b @ ws @ ws'\<rparr>)
                               in case e of None \<Rightarrow> Return b' | Some err \<Rightarrow> Raise err b'))))))"

text \<open>Atom events in a row; an exception ends the row.\<close>

fun init_atoms :: "atom_record list \<Rightarrow> builder \<Rightarrow> outcome" where
  "init_atoms [] b = Return b"
| "init_atoms (rc # rcs) b =
     (case init_atom rc b of
        Return b' \<Rightarrow> init_atoms rcs b'
      | Raise e b' \<Rightarrow> Raise e b')"

subsection \<open>The event stream\<close>

datatype event =
    BeginChain string
  | BeginSeg string
  | BeginResidue string string int string
  | AddAtom atom_record
  | EndChain

fun step ::
  "(Chain \<Rightarrow> int \<Rightarrow> res_id list) \<Rightarrow> (Chain \<Rightarrow> Chain) \<Rightarrow> event \<Rightarrow> builder \<Rightarrow> outcome" where
  "step fhs upd (BeginChain cid) b = init_chain cid b"
| "step fhs upd (BeginSeg sg) b = init_seg sg b"
| "step fhs upd (BeginResidue rn field resseq icode) b = init_residue fhs rn field resseq icode b"
| "step fhs upd (AddAtom rc) b = init_atom rc b"
| "step fhs upd EndChain b = finish_chain_construction upd b"

text \<open>
  A stream of events, each handled from the state the one before left, also when it
  raised: the parser reports a construction error and reads on.
\<close>

definition run ::
  "(Chain \<Rightarrow> int \<Rightarrow> res_id list) \<Rightarrow> (Chain \<Rightarrow> Chain) \<Rightarrow> event list \<Rightarrow> builder \<Rightarrow> builder" where
  "run fhs upd es b = fold (\<lambda>e b'. state_of (step fhs upd e b')) es b"

subsection \<open>A builder at the start, and the states of the examples\<close>

text \<open>\<open>StructureBuilder.__init__\<close>: the line counter is 0 and nothing else is set.\<close>

definition ChmStructureBuilder_new :: builder where
  "ChmStructureBuilder_new =
     \<lparr>self_line_counter = 0, self_model = None, self_chain = None, self_segid = None,
      self_residue = Unset, self_atom = None, warnings = []\<rparr>"

text \<open>
  The examples start from a builder with an empty model, read atom records with
  coordinates and B factor 0, and use a chain without hetero residues.
\<close>

definition start_builder :: builder where
  "start_builder = ChmStructureBuilder_new\<lparr>self_model := Some \<lparr>m_id = 0, m_child_list = []\<rparr>\<rparr>"

definition atom_rec :: "string \<Rightarrow> string \<Rightarrow> string \<Rightarrow> rat \<Rightarrow> atom_record" where
  "atom_rec nm fn alt occ =
     \<lparr>arg_name = nm, arg_coord = [0, 0, 0], arg_b_factor = Some 0, arg_occupancy = Some occ,
      arg_altloc = alt, arg_fullname = fn, arg_serial_number = None, arg_element = None,
      arg_pqr_charge = None, arg_radius = None, arg_is_pqr = False\<rparr>"

definition no_het :: "Chain \<Rightarrow> int \<Rightarrow> res_id list" where
  "no_het c resseq = []"

text \<open>Chain A with residue ALA 1 and one atom CA, with a blank altloc and with altloc A.\<close>

definition ala_blank :: builder where
  "ala_blank = run no_het (\<lambda>c. c)
     [BeginChain ''A'', BeginSeg ''S'', BeginResidue ''ALA'' '' '' 1 '' '',
      AddAtom (atom_rec ''CA'' '' CA '' '' '' 1)] start_builder"

definition ala_altloc :: builder where
  "ala_altloc = run no_het (\<lambda>c. c)
     [BeginChain ''A'', BeginSeg ''S'', BeginResidue ''ALA'' '' '' 1 '' '',
      AddAtom (atom_rec ''CA'' '' CA '' ''A'' 1)] start_builder"

definition ca_blank :: Atom where
  "ca_blank = make_atom ''CA'' (atom_rec ''CA'' '' CA '' '' '' 1)"

definition ala_residue_blank :: Residue where
  "ala_residue_blank =
     (Residue_new ('' '', 1, '' '') ''ALA'' ''S'')\<lparr>r_child_list := [AtomNode ca_blank]\<rparr>"

definition ca_A :: Atom where
  "ca_A = make_atom ''CA'' (atom_rec ''CA'' '' CA '' ''A'' 1)\<lparr>disordered_flag := True\<rparr>"

definition ala_residue_altloc :: Residue where
  "ala_residue_altloc = (Residue_new ('' '', 1, '' '') ''ALA'' ''S'')
     \<lparr>disordered := True,
      r_child_list := [DisorderedAtomNode \<lparr>da_id = ''CA'', da_child_dict = [(''A'', ca_A)],
                         da_selected_child = Some ca_A, last_occupancy = 1\<rparr>]\<rparr>"

text \<open>
  The example of a point mutation: ALA 1 with atom CA at altloc A, then SER at the same
  key with the same atom, then ALA at that key once more. \<open>mutated sel\<close> is the state
  the events leave, with \<open>sel\<close> the selected child of the DisorderedResidue.
\<close>

definition mutation_events :: "event list" where
  "mutation_events =
     [BeginChain ''A'', BeginSeg ''S'',
      BeginResidue ''ALA'' '' '' 1 '' '', AddAtom (atom_rec ''CA'' '' CA '' ''A'' 1),
      BeginResidue ''SER'' '' '' 1 '' '', AddAtom (atom_rec ''CA'' '' CA '' ''A'' 1),
      BeginResidue ''ALA'' '' '' 1 '' '']"

definition ser_residue :: Residue where
  "ser_residue = ala_residue_altloc\<lparr>resname := ''SER''\<rparr>"

definition mutation_group :: "string \<Rightarrow> DisorderedResidue" where
  "mutation_group sel =
     \<lparr>dr_id = ('' '', 1, '' ''),
      dr_child_dict = [(''ALA'', ala_residue_altloc), (''SER'', ser_residue)],
      dr_selected_child = Some sel\<rparr>"

definition mutated :: "string \<Rightarrow> builder" where
  "mutated sel =
     \<lparr>self_line_counter = 0,
      self_model = Some \<lparr>m_id = 0, m_child_list =
         [\<lparr>c_id = ''A'', c_child_list = [DisorderedResidueNode (mutation_group sel)]\<rparr>]\<rparr>,
      self_chain = Some ''A'', self_segid = Some ''S'', self_residue = Ref ''A'' ('' '', 1, '' ''),
      self_atom = Some ca_A,
      warnings = [ResidueRedefined '' '' 1 '' '' 0] @
                 (if sel = ''ALA'' then [ResidueRedefined '' '' 1 '' '' 0] else [])\<rparr>"


subsection \<open>Unique keys\<close>

text \<open>
  The invariant of the containers: the chains of the model have distinct ids, and the
  children of every chain have distinct ids, so that an id leads to one node at most.
\<close>

definition keys_unique :: "builder \<Rightarrow> bool" where
  "keys_unique b =
     (case self_model b of
        None \<Rightarrow> True
      | Some m \<Rightarrow> distinct (map c_id (m_child_list m))
                 \<and> (\<forall>c\<in>set (m_child_list m). distinct (map res_node_id (c_child_list c))))"

section \<open>Lemmas on the containers and the examples\<close>

lemmas builder_defs =
  run_def init_chain_def init_seg_def init_residue_def init_atom_def finish_chain_construction_def
  process_duplicate_res_def process_duplicate_het_def process_disordered_res_def
  choose_name_def make_atom_def place_atom_def hetero_field_def
  get_chain_def get_node_def update_chain_def update_node_def warn_def
  has_id_def get_item_def detach_child_def update_child_def
  Residue_new_def DisorderedResidue_new_def DisorderedAtom_new_def PeptideChain_new_def
  da_disordered_add_def dr_disordered_add_def disordered_has_id_def disordered_select_def
  disordered_get_def Residue_add_def is_completely_disordered_def reset_disordered_res_def
  minus_maxsize_def ChmStructureBuilder_new_def start_builder_def atom_rec_def no_het_def Let_def

lemma has_id_get_item: "has_id key xs k \<longleftrightarrow> get_item key xs k \<noteq> None"
  by (auto simp: has_id_def get_item_def find_None_iff)

lemma get_item_SomeD: "get_item key xs k = Some x \<Longrightarrow> key x = k \<and> x \<in> set xs"
  by (auto simp: get_item_def find_Some_iff)

lemma get_item_append:
  "get_item key (xs @ ys) k = (case get_item key xs k of None \<Rightarrow> get_item key ys k | Some x \<Rightarrow> Some x)"
  by (induction xs) (auto simp: get_item_def)

lemma get_item_detach_same: "get_item key (detach_child key k xs) k = None"
  by (induction xs) (auto simp: get_item_def detach_child_def)


lemma get_item_update_child:
  "(\<And>x. key (f x) = key x) \<Longrightarrow>
   get_item key (update_child key k f xs) k' =
     (if k' = k then map_option f (get_item key xs k) else get_item key xs k')"
  by (induction xs) (auto simp: get_item_def update_child_def)

lemma map_key_update_child:
  "(\<And>x. key x = k \<Longrightarrow> key (f x) = key x) \<Longrightarrow> map key (update_child key k f xs) = map key xs"
  by (induction xs) (auto simp: update_child_def)

lemma get_chain_update_chain:
  "(\<And>c. c_id (f c) = c_id c) \<Longrightarrow>
   get_chain (update_chain cid f b) cid' =
     (if cid' = cid then map_option f (get_chain b cid) else get_chain b cid')"
  by (auto simp: get_chain_def update_chain_def get_item_update_child split: option.splits)

lemma get_node_update_node:
  "(\<And>n. res_node_id (f n) = res_node_id n) \<Longrightarrow>
   get_node (update_node cid k f b) cid k = map_option f (get_node b cid k)"
  by (auto simp: get_node_def update_node_def get_chain_update_chain get_item_update_child split: option.splits)

lemma init_atom_RefNone: "self_residue b = RefNone \<Longrightarrow> init_atom rc b = Return b"
  by (simp add: init_atom_def)

lemma init_atoms_RefNone: "self_residue b = RefNone \<Longrightarrow> init_atoms rcs b = Return b"
  by (induction rcs) (simp_all add: init_atom_RefNone)

lemma is_completely_disordered_blank:
  "get_unpacked_list (r_child_list r) = Inr as \<Longrightarrow> \<exists>a\<in>set as. altloc a = '' ''
   \<Longrightarrow> is_completely_disordered r = Inr False"
  by (auto simp: is_completely_disordered_def list_all_iff)

lemma is_completely_disordered_all:
  "get_unpacked_list (r_child_list r) = Inr as \<Longrightarrow> \<forall>a\<in>set as. altloc a \<noteq> '' ''
   \<Longrightarrow> is_completely_disordered r = Inr True"
  by (auto simp: is_completely_disordered_def list_all_iff)

lemma get_node_with_chain:
  "get_chain b cid = Some c \<Longrightarrow> get_node b cid k = get_item res_node_id (c_child_list c) k"
  by (simp add: get_node_def)

lemma filter_detach_same: "filter (\<lambda>x. key x = k) (detach_child key k xs) = []"
  by (induction xs) (auto simp: detach_child_def)

lemma ala_blank_eq:
  "ala_blank = \<lparr>self_line_counter = 0,
      self_model = Some \<lparr>m_id = 0, m_child_list = [\<lparr>c_id = ''A'', c_child_list = [ResidueNode ala_residue_blank]\<rparr>]\<rparr>,
      self_chain = Some ''A'', self_segid = Some ''S'', self_residue = Ref ''A'' ('' '', 1, '' ''),
      self_atom = Some ca_blank, warnings = []\<rparr>"
  by code_simp

lemma ala_altloc_eq:
  "ala_altloc = \<lparr>self_line_counter = 0,
      self_model = Some \<lparr>m_id = 0, m_child_list = [\<lparr>c_id = ''A'', c_child_list = [ResidueNode ala_residue_altloc]\<rparr>]\<rparr>,
      self_chain = Some ''A'', self_segid = Some ''S'', self_residue = Ref ''A'' ('' '', 1, '' ''),
      self_atom = Some ca_A, warnings = []\<rparr>"
  by (simp add: ala_altloc_def ala_residue_altloc_def ca_A_def builder_defs Let_def)

lemma ala_blank_chain:
  "get_chain ala_blank ''A'' = Some \<lparr>c_id = ''A'', c_child_list = [ResidueNode ala_residue_blank]\<rparr>"
  by (simp add: ala_blank_eq get_chain_def get_item_def)

lemma ala_altloc_chain:
  "get_chain ala_altloc ''A'' = Some \<lparr>c_id = ''A'', c_child_list = [ResidueNode ala_residue_altloc]\<rparr>"
  by (simp add: ala_altloc_eq get_chain_def get_item_def)

lemma get_item_update_child_first:
  "get_item key xs k = Some x \<Longrightarrow> key (f x) = k
   \<Longrightarrow> get_item key (update_child key k f xs) k = Some (f x)"
  by (induction xs) (auto simp: get_item_def update_child_def split: if_splits)

lemma get_chain_fields [simp]:
  "get_chain (b\<lparr>self_atom := a\<rparr>) = get_chain b"
  "get_chain (b\<lparr>warnings := w\<rparr>) = get_chain b"
  "get_chain (b\<lparr>self_residue := r\<rparr>) = get_chain b"
  by (simp_all add: get_chain_def fun_eq_iff)

lemma get_node_fields [simp]:
  "get_node (b\<lparr>self_atom := a\<rparr>) = get_node b"
  "get_node (b\<lparr>warnings := w\<rparr>) = get_node b"
  "get_node (b\<lparr>self_residue := r\<rparr>) = get_node b"
  by (simp_all add: get_node_def fun_eq_iff)

lemma update_chain_fields [simp]:
  "self_residue (update_chain cid f b) = self_residue b"
  "self_atom (update_chain cid f b) = self_atom b"
  "warnings (update_chain cid f b) = warnings b"
  "self_line_counter (update_chain cid f b) = self_line_counter b"
  "self_chain (update_chain cid f b) = self_chain b"
  "self_segid (update_chain cid f b) = self_segid b"
  by (simp_all add: update_chain_def)

lemma get_chain_update_chain_first:
  "get_chain b cid = Some c \<Longrightarrow> c_id (f c) = cid
   \<Longrightarrow> get_chain (update_chain cid f b) cid = Some (f c)"
  by (auto simp: get_chain_def update_chain_def get_item_update_child_first split: option.splits)

lemma get_node_update_node_first:
  assumes "get_node b cid k = Some node" "res_node_id (f node) = k"
  shows "get_node (update_node cid k f b) cid k = Some (f node)"
proof -
  obtain c where c: "get_chain b cid = Some c"
    and n: "get_item res_node_id (c_child_list c) k = Some node"
    using assms(1) by (auto simp: get_node_def split: option.splits)
  have cid: "c_id c = cid"
    using c by (auto simp: get_chain_def split: option.splits dest: get_item_SomeD)
  have "get_chain (update_node cid k f b) cid
        = Some (c\<lparr>c_child_list := update_child res_node_id k f (c_child_list c)\<rparr>)"
    unfolding update_node_def using c cid by (simp add: get_chain_update_chain_first)
  then show ?thesis
    using n assms(2) by (simp add: get_node_def get_item_update_child_first)
qed

lemma selected_put_selected:
  "selected_residue node = Some res \<Longrightarrow> selected_residue (put_selected res' node) = Some res'"
  by (cases node) (auto simp: disordered_get_def update_conv' split: option.splits)

lemma res_node_id_put_selected:
  "selected_residue node = Some res \<Longrightarrow> r_id res' = r_id res
   \<Longrightarrow> res_node_id (put_selected res' node) = res_node_id node"
  by (cases node) (auto split: option.splits)

lemma is_wrapper_put_selected: "is_wrapper (put_selected res' node) = is_wrapper node"
  by (cases node) (auto split: option.splits)

lemma init_atom_placed:
  assumes cur: "self_residue b = Ref cid k" "get_node b cid k = Some node"
      "selected_residue node = Some res"
    and nm: "choose_name (self_line_counter b) res rc = Inr (nm, ws)"
    and pl: "place_atom (is_wrapper node) (self_line_counter b) (make_atom nm rc) res
               = (None, res', ws', a')"
    and rid: "r_id res' = r_id res"
  shows "\<exists>b'. init_atom rc b = Return b' \<and> self_residue b' = Ref cid k
           \<and> get_node b' cid k = Some (put_selected res' node)
           \<and> selected_residue (put_selected res' node) = Some res'
           \<and> self_atom b' = Some a' \<and> warnings b' = warnings b @ ws @ ws'
           \<and> self_line_counter b' = self_line_counter b"
proof -
  define b' where "b' = update_node cid k (put_selected res')
                          (b\<lparr>self_atom := Some a', warnings := warnings b @ ws @ ws'\<rparr>)"
  have 1: "init_atom rc b = Return b'"
    using cur nm pl by (simp add: init_atom_def b'_def)
  have key: "res_node_id node = k"
    using cur(2) by (auto simp: get_node_def split: option.splits dest: get_item_SomeD)
  have 2: "get_node b' cid k = Some (put_selected res' node)"
    unfolding b'_def
    by (rule get_node_update_node_first)
       (simp_all add: cur res_node_id_put_selected [OF cur(3) rid] key)
  have 3: "self_residue b' = Ref cid k \<and> self_atom b' = Some a'
           \<and> warnings b' = warnings b @ ws @ ws' \<and> self_line_counter b' = self_line_counter b"
    by (simp add: b'_def update_node_def cur)
  show ?thesis
    using 1 2 3 selected_put_selected [OF cur(3)] by blast
qed

lemma make_atom_fields [simp]:
  "name (make_atom nm rc) = nm" "altloc (make_atom nm rc) = arg_altloc rc"
  "fullname (make_atom nm rc) = arg_fullname rc"
  "\<not> arg_is_pqr rc \<Longrightarrow> occupancy (make_atom nm rc) = arg_occupancy rc"
  by (simp_all add: make_atom_def)

lemma da_disordered_add_ok:
  assumes "occupancy a = Some oc"
  shows "\<exists>d'. da_disordered_add a d = (None, d') \<and> da_id d' = da_id d
           \<and> da_child_dict d' = AList.update (altloc a) (a\<lparr>disordered_flag := True\<rparr>) (da_child_dict d)
           \<and> (da_selected_child d' = Some (a\<lparr>disordered_flag := True\<rparr>)
                \<or> da_selected_child d' = da_selected_child d)
           \<and> (last_occupancy d < oc \<longrightarrow> da_selected_child d' = Some (a\<lparr>disordered_flag := True\<rparr>))"
  using assms by (simp add: da_disordered_add_def Let_def)

lemma get_item_distinct:
  "distinct (map key xs) \<Longrightarrow> x \<in> set xs \<Longrightarrow> get_item key xs (key x) = Some x"
  by (induction xs) (auto simp: get_item_def)

lemma map_key_update_child_first:
  "distinct (map key xs) \<Longrightarrow> get_item key xs k = Some x \<Longrightarrow> key (f x) = k
   \<Longrightarrow> map key (update_child key k f xs) = map key xs"
proof (induction xs)
  case Nil
  then show ?case by (simp add: update_child_def)
next
  case (Cons z zs)
  show ?case
  proof (cases "key z = k")
    case True
    then have zx: "z = x" using Cons.prems(2) by (simp add: get_item_def)
    have "\<forall>y\<in>set zs. key y \<noteq> k" using Cons.prems(1) True by (auto simp: image_iff)
    then have "update_child key k f zs = zs" by (simp add: update_child_def map_idI)
    then show ?thesis using True zx Cons.prems(3) by (simp add: update_child_def)
  next
    case False
    then have "get_item key zs k = Some x" using Cons.prems(2) by (simp add: get_item_def)
    with Cons False show ?thesis by (simp add: update_child_def)
  qed
qed

lemma keys_unique_fields [simp]:
  "keys_unique (b\<lparr>self_atom := a\<rparr>) = keys_unique b"
  "keys_unique (b\<lparr>warnings := w\<rparr>) = keys_unique b"
  "keys_unique (b\<lparr>self_residue := r\<rparr>) = keys_unique b"
  "keys_unique (b\<lparr>self_chain := ch\<rparr>) = keys_unique b"
  "keys_unique (b\<lparr>self_segid := sg\<rparr>) = keys_unique b"
  by (simp_all add: keys_unique_def)

lemma keys_unique_warn [simp]: "keys_unique (warn w b) = keys_unique b"
  by (simp add: warn_def)

lemma get_chain_warn [simp]: "get_chain (warn w b) = get_chain b"
  by (simp add: warn_def)

lemma keys_unique_update_chain:
  assumes ku: "keys_unique b"
    and cid: "\<And>c. c_id (f c) = c_id c"
    and f: "\<And>c. get_chain b cid = Some c \<Longrightarrow> distinct (map res_node_id (c_child_list c))
                \<Longrightarrow> distinct (map res_node_id (c_child_list (f c)))"
  shows "keys_unique (update_chain cid f b)"
proof (cases "self_model b")
  case None
  then show ?thesis by (simp add: keys_unique_def update_chain_def)
next
  case (Some m)
  have d: "distinct (map c_id (m_child_list m))"
    and dc: "\<forall>c\<in>set (m_child_list m). distinct (map res_node_id (c_child_list c))"
    using ku Some by (simp_all add: keys_unique_def)
  have 1: "map c_id (update_child c_id cid f (m_child_list m)) = map c_id (m_child_list m)"
    by (rule map_key_update_child) (simp add: cid)
  have 2: "distinct (map res_node_id (c_child_list c'))"
    if "c' \<in> set (update_child c_id cid f (m_child_list m))" for c'
  proof -
    from that obtain c where c: "c \<in> set (m_child_list m)"
      and c': "c' = (if c_id c = cid then f c else c)"
      by (auto simp: update_child_def)
    show ?thesis
    proof (cases "c_id c = cid")
      case True
      have "get_chain b cid = Some c"
        using get_item_distinct [OF d c] True Some by (simp add: get_chain_def)
      then show ?thesis using f dc c c' True by simp
    next
      case False
      then show ?thesis using dc c c' by simp
    qed
  qed
  show ?thesis
    using Some d 1 2 by (simp add: keys_unique_def update_chain_def)
qed

lemma update_chain_twice:
  "(\<And>c. c_id (f c) = c_id c) \<Longrightarrow>
   update_chain cid g (update_chain cid f b) = update_chain cid (\<lambda>c. g (f c)) b"
  by (cases "self_model b") (simp_all add: update_chain_def update_child_def comp_def)

lemma distinct_detach_append:
  "distinct (map key xs) \<Longrightarrow> key n = k \<Longrightarrow> distinct (map key (detach_child key k xs @ [n]))"
  by (auto simp: detach_child_def distinct_map_filter)

lemma distinct_detach:
  "distinct (map key xs) \<Longrightarrow> distinct (map key (detach_child key k xs))"
  by (simp add: detach_child_def distinct_map_filter)

lemma place_atom_r_id:
  "place_atom w line a res = (e, res', ws, a') \<Longrightarrow> r_id res' = r_id res"
  by (cases w; cases "residue_add w (AtomNode a) res")
     (auto simp: place_atom_def Residue_add_def Let_def split: if_splits option.splits
        atom_node.splits prod.splits sum.splits)

lemma keys_unique_update_node:
  assumes ku: "keys_unique b"
    and f: "\<And>c node. get_chain b cid = Some c
              \<Longrightarrow> get_item res_node_id (c_child_list c) k = Some node
              \<Longrightarrow> res_node_id (f node) = k"
  shows "keys_unique (update_node cid k f b)"
  unfolding update_node_def
proof (rule keys_unique_update_chain [OF ku])
  fix c
  assume c: "get_chain b cid = Some c" and d: "distinct (map res_node_id (c_child_list c))"
  show "distinct (map res_node_id
          (c_child_list (c\<lparr>c_child_list := update_child res_node_id k f (c_child_list c)\<rparr>)))"
  proof (cases "get_item res_node_id (c_child_list c) k")
    case None
    then have "\<forall>x\<in>set (c_child_list c). res_node_id x \<noteq> k"
      by (auto simp: get_item_def find_None_iff)
    then have "update_child res_node_id k f (c_child_list c) = c_child_list c"
      by (simp add: update_child_def map_idI)
    then show ?thesis using d by simp
  next
    case (Some node)
    from map_key_update_child_first [of res_node_id "c_child_list c" k node f, OF d Some f [OF c Some]] d
    show ?thesis by simp
  qed
qed simp

lemma keys_unique_init_atom:
  assumes "keys_unique b"
  shows "keys_unique (state_of (init_atom rc b))"
proof (cases "self_residue b")
  case (Ref cid k)
  show ?thesis
  proof (cases "get_node b cid k")
    case None
    with Ref assms show ?thesis by (simp add: init_atom_def)
  next
    case (Some node)
    show ?thesis
    proof (cases "selected_residue node")
      case None
      with Ref Some assms show ?thesis by (simp add: init_atom_def)
    next
      case sel: (Some res)
      show ?thesis
      proof (cases "choose_name (self_line_counter b) res rc")
        case (Inl e)
        with Ref Some sel assms show ?thesis by (simp add: init_atom_def)
      next
        case (Inr p)
        obtain nm ws where p: "p = (nm, ws)" by (cases p)
        obtain e res' ws' a' where pl:
          "place_atom (is_wrapper node) (self_line_counter b) (make_atom nm rc) res = (e, res', ws', a')"
          by (metis prod_cases4)
        have rid: "r_id res' = r_id res" using pl by (rule place_atom_r_id)
        have key: "res_node_id (put_selected res' node) = k"
          using res_node_id_put_selected [OF sel rid] Some
          by (auto simp: get_node_def split: option.splits dest: get_item_SomeD)
        have "keys_unique (update_node cid k (put_selected res')
                 (b\<lparr>self_atom := Some a', warnings := warnings b @ ws @ ws'\<rparr>))"
        proof (rule keys_unique_update_node)
          show "keys_unique (b\<lparr>self_atom := Some a', warnings := warnings b @ ws @ ws'\<rparr>)"
            using assms by simp
        next
          fix c n
          assume "get_chain (b\<lparr>self_atom := Some a', warnings := warnings b @ ws @ ws'\<rparr>) cid = Some c"
            "get_item res_node_id (c_child_list c) k = Some n"
          then have "n = node" using Some by (simp add: get_node_def)
          then show "res_node_id (put_selected res' n) = k" using key by simp
        qed
        then show ?thesis
          using Ref Some sel Inr p pl by (cases e) (simp_all add: init_atom_def)
      qed
    qed
  qed
qed (use assms in \<open>simp_all add: init_atom_def\<close>)

lemma keys_unique_init_chain:
  "keys_unique b \<Longrightarrow> keys_unique (state_of (init_chain cid b))"
  by (auto simp: init_chain_def keys_unique_def has_id_def PeptideChain_new_def warn_def
      split: option.splits)

lemma dr_disordered_add_id: "dr_disordered_add r g = Inr g' \<Longrightarrow> dr_id g' = dr_id g"
  by (auto simp: dr_disordered_add_def disordered_select_def split: if_splits)

lemma keys_unique_group_swap:
  assumes "keys_unique b" "dr_id g = k"
  shows "keys_unique (update_chain cid
           (\<lambda>c. c\<lparr>c_child_list := c_child_list c @ [DisorderedResidueNode g]\<rparr>)
           (update_chain cid
              (\<lambda>c. c\<lparr>c_child_list := detach_child res_node_id k (c_child_list c)\<rparr>) b))"
proof -
  have "keys_unique (update_chain cid
          (\<lambda>c. c\<lparr>c_child_list := detach_child res_node_id k (c_child_list c)
                                  @ [DisorderedResidueNode g]\<rparr>) b)"
  proof (rule keys_unique_update_chain [OF assms(1)])
    fix c :: Chain
    assume "distinct (map res_node_id (c_child_list c))"
    from distinct_detach_append [OF this, of "DisorderedResidueNode g" k] assms(2)
    show "distinct (map res_node_id (c_child_list
            (c\<lparr>c_child_list := detach_child res_node_id k (c_child_list c)
                                  @ [DisorderedResidueNode g]\<rparr>)))"
      by simp
  qed simp
  then show ?thesis
    by (simp add: update_chain_twice)
qed

lemma keys_unique_detach:
  "keys_unique b \<Longrightarrow> keys_unique (update_chain cid
      (\<lambda>c. c\<lparr>c_child_list := detach_child res_node_id k (c_child_list c)\<rparr>) b)"
  by (rule keys_unique_update_chain) (simp_all add: distinct_detach)

lemma keys_unique_process_disordered_res:
  assumes ku: "keys_unique b"
  shows "keys_unique (state_of (process_disordered_res cid dup res_id rn b))"
proof -
  obtain field resseq icode where res_id: "res_id = (field, resseq, icode)"
    by (cases res_id)
  show ?thesis
  proof (cases dup)
    case (DisorderedResidueNode g)
    have sel: "keys_unique (update_node cid (dr_id g) (\<lambda>n. DisorderedResidueNode g')
                 (b\<lparr>self_residue := Ref cid (dr_id g)\<rparr>))" if "dr_id g' = dr_id g" for g'
      by (rule keys_unique_update_node) (simp_all add: ku that)
    show ?thesis
    proof (cases "disordered_has_id g rn")
      case True
      then show ?thesis
        using DisorderedResidueNode sel [of "disordered_select rn g"] res_id
        by (simp add: process_disordered_res_def disordered_select_def)
    next
      case False
      show ?thesis
      proof (cases "self_segid b")
        case None
        then show ?thesis
          using False DisorderedResidueNode ku res_id by (simp add: process_disordered_res_def)
      next
        case (Some sg)
        obtain g1 where g1: "dr_disordered_add (Residue_new res_id rn sg) g = Inr g1"
          using False by (simp add: dr_disordered_add_def Residue_new_def)
        have "dr_id g1 = dr_id g" using g1 by (rule dr_disordered_add_id)
        then show ?thesis
          using False DisorderedResidueNode Some g1 sel [of g1] res_id
          by (simp add: process_disordered_res_def)
      qed
    qed
  next
    case (ResidueNode r)
    show ?thesis
    proof (cases "rn = resname r")
      case True
      then show ?thesis
        using ResidueNode ku res_id by (simp add: process_disordered_res_def)
    next
      case False
      show ?thesis
      proof (cases "is_completely_disordered r")
        case (Inl e)
        then show ?thesis
          using False ResidueNode ku res_id by (simp add: process_disordered_res_def)
      next
        case (Inr complete)
        show ?thesis
        proof (cases complete)
          case False
          then show ?thesis
            using \<open>rn \<noteq> resname r\<close> Inr ResidueNode ku res_id
            by (simp add: process_disordered_res_def)
        next
          case True
          show ?thesis
          proof (cases "self_segid b")
            case None
            then show ?thesis
              using \<open>rn \<noteq> resname r\<close> True Inr ResidueNode res_id
                keys_unique_detach [OF ku, of cid "r_id r"]
              by (simp add: process_disordered_res_def)
          next
            case (Some sg)
            obtain g1 where g1: "dr_disordered_add r (DisorderedResidue_new (r_id r)) = Inr g1"
              and g1f: "dr_id g1 = r_id r" "dr_child_dict g1 = [(resname r, r)]"
              by (simp add: dr_disordered_add_def DisorderedResidue_new_def disordered_has_id_def
                  disordered_select_def)
            obtain g2 where g2: "dr_disordered_add (Residue_new res_id rn sg) g1 = Inr g2"
              using \<open>rn \<noteq> resname r\<close> g1f
              by (simp add: dr_disordered_add_def disordered_has_id_def Residue_new_def)
            have "dr_id g2 = r_id r"
              using dr_disordered_add_id [OF g2] g1f by simp
            from keys_unique_group_swap [OF ku this, of cid] show ?thesis
              using \<open>rn \<noteq> resname r\<close> True Inr ResidueNode Some g1 g2 res_id
              by (simp add: process_disordered_res_def)
          qed
        qed
      qed
    qed
  qed
qed

lemma keys_unique_init_residue:
  assumes ku: "keys_unique b"
  shows "keys_unique (state_of (init_residue fhs rn field resseq icode b))"
proof (cases "self_chain b")
  case None
  then show ?thesis using ku by (simp add: init_residue_def)
next
  case (Some cid)
  show ?thesis
  proof (cases "get_chain b cid")
    case None
    then show ?thesis using ku Some by (simp add: init_residue_def)
  next
    case c: (Some c)
    define res_id where "res_id = (hetero_field rn field, resseq, icode)"
    have fresh: "keys_unique (update_chain cid
        (\<lambda>c. c\<lparr>c_child_list := c_child_list c @ [ResidueNode (Residue_new res_id rn sg)]\<rparr>) b)"
      if "\<not> has_id res_node_id (c_child_list c) res_id" for sg
    proof (rule keys_unique_update_chain [OF ku])
      fix c' :: Chain
      assume "get_chain b cid = Some c'" "distinct (map res_node_id (c_child_list c'))"
      then show "distinct (map res_node_id (c_child_list
          (c'\<lparr>c_child_list := c_child_list c' @ [ResidueNode (Residue_new res_id rn sg)]\<rparr>)))"
        using that c by (simp add: has_id_def Residue_new_def)
    qed simp
    have dup: "keys_unique (state_of (process_duplicate_res cid c res_id rn b))"
      using keys_unique_process_disordered_res [of "warn w b" for w] ku
      by (cases res_id) (auto simp: process_duplicate_res_def Let_def split: option.splits)
    have het: "keys_unique (state_of (process_duplicate_het fhs cid c res_id rn b))"
      using keys_unique_process_disordered_res [OF ku] ku
      by (auto simp: process_duplicate_het_def split: option.splits list.splits)
    show ?thesis
      using Some c ku fresh dup het
      by (auto simp: init_residue_def Let_def res_id_def [symmetric] split: option.splits)
  qed
qed

lemma reset_fold_fields:
  "dr_id (fold (\<lambda>(rn, child) g'. if r_id child = dr_id g' then disordered_select rn g' else g') xs g)
     = dr_id g
   \<and> dr_child_dict (fold (\<lambda>(rn, child) g'. if r_id child = dr_id g' then disordered_select rn g' else g') xs g)
     = dr_child_dict g"
  by (induction xs arbitrary: g) (auto simp: disordered_select_def)

lemma reset_fold_selected:
  "dr_selected_child
     (fold (\<lambda>(rn, child) g'. if r_id child = dr_id g' then disordered_select rn g' else g') xs g)
   = (case filter (\<lambda>(rn, child). r_id child = dr_id g) xs of
        [] \<Rightarrow> dr_selected_child g
      | m # ms \<Rightarrow> Some (fst (last (m # ms))))"
proof (induction xs arbitrary: g)
  case Nil
  then show ?case by simp
next
  case (Cons x xs)
  obtain rn child where x: "x = (rn, child)" by (cases x)
  show ?case
  proof (cases "r_id child = dr_id g")
    case True
    then show ?thesis
      using Cons.IH [of "disordered_select rn g"] x
      by (auto simp: disordered_select_def split: list.splits)
  next
    case False
    then show ?thesis using Cons.IH [of g] x by simp
  qed
qed

lemma reset_disordered_res_fields:
  "dr_id (reset_disordered_res g) = dr_id g"
  "dr_child_dict (reset_disordered_res g) = dr_child_dict g"
  by (simp_all add: reset_disordered_res_def reset_fold_fields)

lemma res_node_id_reset_node [simp]: "res_node_id (reset_node n) = res_node_id n"
  by (cases n) (simp_all add: reset_disordered_res_fields)

lemma keys_unique_finish:
  assumes upd: "\<And>c. c_id (upd c) = c_id c"
      "\<And>c. mset (c_child_list (upd c)) = mset (c_child_list c)"
    and ku: "keys_unique b"
  shows "keys_unique (state_of (finish_chain_construction upd b))"
proof (cases "self_chain b")
  case None
  then show ?thesis using ku by (simp add: finish_chain_construction_def)
next
  case (Some cid)
  have "keys_unique (update_chain cid
          (\<lambda>c. upd (c\<lparr>c_child_list := map reset_node (c_child_list c)\<rparr>)) b)"
  proof (rule keys_unique_update_chain [OF ku])
    fix c :: Chain
    assume d: "distinct (map res_node_id (c_child_list c))"
    define c0 where "c0 = c\<lparr>c_child_list := map reset_node (c_child_list c)\<rparr>"
    have "mset (map res_node_id (c_child_list (upd c0)))
          = image_mset res_node_id (mset (c_child_list (upd c0)))"
      by simp
    also have "\<dots> = image_mset res_node_id (mset (c_child_list c0))"
      by (simp only: upd(2))
    also have "\<dots> = mset (map res_node_id (c_child_list c))"
      by (simp add: c0_def multiset.map_comp comp_def)
    finally have "distinct (map res_node_id (c_child_list (upd c0)))"
      using d by (metis mset_eq_imp_distinct_iff)
    then show "distinct (map res_node_id
        (c_child_list (upd (c\<lparr>c_child_list := map reset_node (c_child_list c)\<rparr>))))"
      by (simp add: c0_def)
  qed (simp add: upd(1))
  then show ?thesis
    using Some ku by (simp add: finish_chain_construction_def split: option.splits)
qed

lemma distinct_filter_key_le1:
  "distinct (map key xs) \<Longrightarrow> length (filter (\<lambda>n. key n = k) xs) \<le> 1"
proof (induction xs)
  case Nil
  then show ?case by simp
next
  case (Cons x xs)
  show ?case
  proof (cases "key x = k")
    case True
    then have "\<forall>y\<in>set xs. key y \<noteq> k" using Cons.prems by (auto simp: image_iff)
    then have "filter (\<lambda>n. key n = k) xs = []" by (simp add: filter_empty_conv)
    then show ?thesis using True by simp
  next
    case False
    then show ?thesis using Cons by simp
  qed
qed

lemma keys_unique_step:
  assumes "\<And>c. c_id (upd c) = c_id c" "\<And>c. mset (c_child_list (upd c)) = mset (c_child_list c)"
    and "keys_unique b"
  shows "keys_unique (state_of (step fhs upd e b))"
  using assms
  by (cases e)
     (simp_all add: keys_unique_init_chain keys_unique_init_residue keys_unique_init_atom
        keys_unique_finish init_seg_def)

lemma keys_unique_run:
  assumes "\<And>c. c_id (upd c) = c_id c" "\<And>c. mset (c_child_list (upd c)) = mset (c_child_list c)"
  shows "keys_unique b \<Longrightarrow> keys_unique (run fhs upd es b)"
  unfolding run_def
  by (induction es arbitrary: b) (simp_all add: keys_unique_step [OF assms])

lemma run_butlast_mutation_events:
  "run no_het (\<lambda>c. c) (butlast mutation_events) start_builder = mutated ''SER''"
  by (simp add: mutation_events_def mutated_def mutation_group_def ser_residue_def
      ala_residue_altloc_def ca_A_def builder_defs)

lemma run_mutation_events:
  "run no_het (\<lambda>c. c) mutation_events start_builder = mutated ''ALA''"
  by (simp add: mutation_events_def mutated_def mutation_group_def ser_residue_def
      ala_residue_altloc_def ca_A_def builder_defs)

lemma reset_mutation_group:
  "reset_disordered_res (mutation_group sel) = mutation_group ''SER''"
  by (simp add: mutation_group_def reset_disordered_res_def disordered_select_def
      ser_residue_def ala_residue_altloc_def Residue_new_def)

lemma finish_mutated:
  "state_of (finish_chain_construction (\<lambda>c. c) (mutated ''ALA''))
   = (mutated ''ALA'')\<lparr>self_model := Some \<lparr>m_id = 0, m_child_list =
       [\<lparr>c_id = ''A'', c_child_list = [DisorderedResidueNode (mutation_group ''SER'')]\<rparr>]\<rparr>\<rparr>"
  by (simp add: finish_chain_construction_def mutated_def get_chain_def get_item_def
      update_chain_def update_child_def reset_mutation_group)

lemma run_mutation_events_end:
  "run no_het (\<lambda>c. c) (mutation_events @ [EndChain]) start_builder
   = (mutated ''ALA'')\<lparr>self_model := Some \<lparr>m_id = 0, m_child_list =
       [\<lparr>c_id = ''A'', c_child_list = [DisorderedResidueNode (mutation_group ''SER'')]\<rparr>]\<rparr>\<rparr>"
  using run_mutation_events finish_mutated by (simp add: run_def)

lemma warnings_update_node [simp]: "warnings (update_node cid k f b) = warnings b"
  by (simp add: update_node_def)





section \<open>The claims on the builder\<close>

text \<open>
  C1. Let the chain hold under the key of the event a Residue of another name, one of
  whose atoms has a blank altloc. Then \<open>init_residue\<close> raises the construction error
  made of the new name and the key; the state it leaves has \<open>self.residue\<close> \<open>None\<close>, the
  redefinition warning in the log and the model as it was, so the key still leads to
  the old Residue; and any row of atom events from that state returns and leaves the
  state as it is.
\<close>

theorem blank_altloc_duplicate_rejected:
  assumes ch: "self_chain b = Some cid" "get_chain b cid = Some c"
    and k: "k = (hetero_field rn field, resseq, icode)"
    and dup: "get_item res_node_id (c_child_list c) k = Some (ResidueNode r)"
    and rn: "resname r \<noteq> rn"
    and un: "get_unpacked_list (r_child_list r) = Inr as"
    and blank: "\<exists>a\<in>set as. altloc a = '' ''"
    and b': "b' = warn (ResidueRedefined (hetero_field rn field) resseq icode (self_line_counter b)) b
                    \<lparr>self_residue := RefNone\<rparr>"
  shows "init_residue fhs rn field resseq icode b =
           Raise (PDBConstructionException (BlankAltlocs rn (hetero_field rn field) resseq icode)) b'
         \<and> self_model b' = self_model b
         \<and> get_node b' cid k = Some (ResidueNode r)
         \<and> (\<forall>rcs. init_atoms rcs b' = Return b')"
proof -
  have has: "has_id res_node_id (c_child_list c) k"
    using dup by (simp add: has_id_get_item)
  have icd: "is_completely_disordered r = Inr False"
    using un blank by (rule is_completely_disordered_blank)
  have 1: "init_residue fhs rn field resseq icode b =
           Raise (PDBConstructionException (BlankAltlocs rn (hetero_field rn field) resseq icode)) b'"
    using ch has dup rn icd unfolding k b'
    by (simp add: init_residue_def process_duplicate_res_def process_disordered_res_def warn_def)
  have 2: "self_model b' = self_model b" by (simp add: b' warn_def)
  have 3: "get_node b' cid k = Some (ResidueNode r)"
    using ch dup by (simp add: get_node_def get_chain_def b' warn_def)
  have 4: "self_residue b' = RefNone" by (simp add: b')
  show ?thesis using 1 2 3 init_atoms_RefNone [OF 4] by simp
qed

theorem blank_altloc_duplicate_rejected_witness:
  "get_node ala_blank ''A'' ('' '', 1, '' '') = Some (ResidueNode ala_residue_blank)
   \<and> get_unpacked_list (r_child_list ala_residue_blank) = Inr [ca_blank] \<and> altloc ca_blank = '' ''
   \<and> init_residue no_het ''GLY'' '' '' 1 '' '' ala_blank =
       Raise (PDBConstructionException (BlankAltlocs ''GLY'' '' '' 1 '' ''))
         (warn (ResidueRedefined '' '' 1 '' '' 0) ala_blank\<lparr>self_residue := RefNone\<rparr>)
   \<and> get_node (warn (ResidueRedefined '' '' 1 '' '' 0) ala_blank\<lparr>self_residue := RefNone\<rparr>)
        ''A'' ('' '', 1, '' '') = Some (ResidueNode ala_residue_blank)
   \<and> init_atoms [atom_rec ''CA'' '' CA '' '' '' 1, atom_rec ''N'' '' N  '' ''A'' 1]
        (warn (ResidueRedefined '' '' 1 '' '' 0) ala_blank\<lparr>self_residue := RefNone\<rparr>)
       = Return (warn (ResidueRedefined '' '' 1 '' '' 0) ala_blank\<lparr>self_residue := RefNone\<rparr>)"
proof -
  have h1: "self_chain ala_blank = Some ''A''" by (simp add: ala_blank_eq)
  have h3: "('' '', 1::int, '' '') = (hetero_field ''GLY'' '' '', 1, '' '')"
    by (simp add: hetero_field_def)
  have h4: "get_item res_node_id
              (c_child_list \<lparr>c_id = ''A'', c_child_list = [ResidueNode ala_residue_blank]\<rparr>)
              ('' '', 1, '' '') = Some (ResidueNode ala_residue_blank)"
    by (simp add: get_item_def ala_residue_blank_def Residue_new_def)
  have h5: "resname ala_residue_blank \<noteq> ''GLY''"
    by (simp add: ala_residue_blank_def Residue_new_def)
  have h6: "get_unpacked_list (r_child_list ala_residue_blank) = Inr [ca_blank]"
    by (simp add: ala_residue_blank_def ca_blank_def make_atom_def atom_rec_def)
  have h7: "\<exists>a\<in>set [ca_blank]. altloc a = '' ''"
    by (simp add: ca_blank_def make_atom_def atom_rec_def)
  have h8: "warn (ResidueRedefined '' '' 1 '' '' 0) ala_blank\<lparr>self_residue := RefNone\<rparr>
            = warn (ResidueRedefined (hetero_field ''GLY'' '' '') 1 '' '' (self_line_counter ala_blank))
                ala_blank\<lparr>self_residue := RefNone\<rparr>"
    by (simp add: hetero_field_def ala_blank_eq)
  have n: "get_node ala_blank ''A'' ('' '', 1, '' '') = Some (ResidueNode ala_residue_blank)"
    using h4 by (simp add: get_node_def ala_blank_chain)
  from blank_altloc_duplicate_rejected [OF h1 ala_blank_chain h3 h4 h5 h6 h7 h8, of no_het]
  show ?thesis using n h6 h7 by (simp add: hetero_field_def)
qed

text \<open>
  C2. Let the chain hold under the key of the event a Residue of another name, none of
  whose atoms has a blank altloc, and let \<open>segid\<close> be set. Then \<open>init_residue\<close> returns;
  the chain holds under the key one node, a DisorderedResidue with two children in
  this order, the old Residue as it was under its name and a new empty Residue under
  the new name; the new one is selected, and \<open>self.residue\<close> is that DisorderedResidue.
\<close>

theorem point_mutation_forms_group:
  assumes ch: "self_chain b = Some cid" "get_chain b cid = Some c"
    and k: "k = (hetero_field rn field, resseq, icode)"
    and dup: "get_item res_node_id (c_child_list c) k = Some (ResidueNode r)"
    and rn: "resname r \<noteq> rn"
    and un: "get_unpacked_list (r_child_list r) = Inr as"
    and nonblank: "\<forall>a\<in>set as. altloc a \<noteq> '' ''"
    and sg: "self_segid b = Some sg"
    and g: "g = \<lparr>dr_id = k, dr_child_dict = [(resname r, r), (rn, Residue_new k rn sg)],
                 dr_selected_child = Some rn\<rparr>"
  shows "\<exists>b' c'. init_residue fhs rn field resseq icode b = Return b'
           \<and> self_residue b' = Ref cid k
           \<and> get_chain b' cid = Some c'
           \<and> c_child_list c' = detach_child res_node_id k (c_child_list c) @ [DisorderedResidueNode g]
           \<and> filter (\<lambda>n. res_node_id n = k) (c_child_list c') = [DisorderedResidueNode g]
           \<and> get_node b' cid k = Some (DisorderedResidueNode g)
           \<and> disordered_get g = Some (Residue_new k rn sg)"
proof -
  have has: "has_id res_node_id (c_child_list c) k"
    using dup by (simp add: has_id_get_item)
  have rid: "r_id r = k"
    using get_item_SomeD [OF dup] by simp
  have icd: "is_completely_disordered r = Inr True"
    using un nonblank by (rule is_completely_disordered_all)
  define b1 where "b1 = warn (ResidueRedefined (hetero_field rn field) resseq icode (self_line_counter b)) b"
  define f :: "Chain \<Rightarrow> Chain" where "f = (\<lambda>c. c\<lparr>c_child_list := detach_child res_node_id k (c_child_list c) @ [DisorderedResidueNode g]\<rparr>)"
  define b' where "b' = update_chain cid f b1\<lparr>self_residue := Ref cid k\<rparr>"
  have g1: "dr_disordered_add r (DisorderedResidue_new k)
            = Inr \<lparr>dr_id = k, dr_child_dict = [(resname r, r)], dr_selected_child = Some (resname r)\<rparr>"
    by (simp add: dr_disordered_add_def DisorderedResidue_new_def disordered_has_id_def
        disordered_select_def)
  have g2: "dr_disordered_add (Residue_new k rn sg)
              \<lparr>dr_id = k, dr_child_dict = [(resname r, r)], dr_selected_child = Some (resname r)\<rparr>
            = Inr g"
    using rn by (simp add: dr_disordered_add_def disordered_has_id_def disordered_select_def
        Residue_new_def g)
  have upd2: "update_chain cid (\<lambda>c. c\<lparr>c_child_list := c_child_list c @ [DisorderedResidueNode g]\<rparr>)
               (update_chain cid (\<lambda>c. c\<lparr>c_child_list := detach_child res_node_id k (c_child_list c)\<rparr>) b1)
             = update_chain cid f b1"
    by (cases "self_model b1") (simp_all add: update_chain_def update_child_def f_def comp_def)
  have 1: "init_residue fhs rn field resseq icode b = Return b'"
    using ch has dup rn icd sg g1 g2 upd2 rid unfolding b'_def b1_def k
    by (simp add: init_residue_def process_duplicate_res_def process_disordered_res_def
        warn_def)
  have gc: "get_chain b1 cid = Some c"
    using ch by (simp add: b1_def warn_def get_chain_def)
  have 3: "get_chain b' cid = Some (f c)"
    using gc by (simp add: b'_def get_chain_def update_chain_def f_def get_item_update_child
        split: option.splits)
  have 4: "c_child_list (f c) = detach_child res_node_id k (c_child_list c) @ [DisorderedResidueNode g]"
    by (simp add: f_def)
  have 5: "filter (\<lambda>n. res_node_id n = k) (c_child_list (f c)) = [DisorderedResidueNode g]"
    by (simp add: 4 filter_detach_same g)
  have 6: "get_node b' cid k = Some (DisorderedResidueNode g)"
    by (simp add: get_node_with_chain [OF 3] 4 get_item_append get_item_detach_same)
       (simp add: get_item_def g)
  have 7: "disordered_get g = Some (Residue_new k rn sg)"
    using rn by (simp add: disordered_get_def g)
  have 2: "self_residue b' = Ref cid k" by (simp add: b'_def)
  show ?thesis using 1 2 3 4 5 6 7 by blast
qed

theorem point_mutation_forms_group_witness:
  "get_node ala_altloc ''A'' ('' '', 1, '' '') = Some (ResidueNode ala_residue_altloc)
   \<and> get_unpacked_list (r_child_list ala_residue_altloc) = Inr [ca_A] \<and> altloc ca_A = ''A''
   \<and> (\<exists>b'. init_residue no_het ''SER'' '' '' 1 '' '' ala_altloc = Return b'
         \<and> self_residue b' = Ref ''A'' ('' '', 1, '' '')
         \<and> get_node b' ''A'' ('' '', 1, '' '') =
             Some (DisorderedResidueNode
                \<lparr>dr_id = ('' '', 1, '' ''),
                 dr_child_dict = [(''ALA'', ala_residue_altloc),
                                  (''SER'', Residue_new ('' '', 1, '' '') ''SER'' ''S'')],
                 dr_selected_child = Some ''SER''\<rparr>))"
proof -
  have h1: "self_chain ala_altloc = Some ''A''" by (simp add: ala_altloc_eq)
  have h3: "('' '', 1::int, '' '') = (hetero_field ''SER'' '' '', 1, '' '')"
    by (simp add: hetero_field_def)
  have h4: "get_item res_node_id
              (c_child_list \<lparr>c_id = ''A'', c_child_list = [ResidueNode ala_residue_altloc]\<rparr>)
              ('' '', 1, '' '') = Some (ResidueNode ala_residue_altloc)"
    by (simp add: get_item_def ala_residue_altloc_def Residue_new_def)
  have h5: "resname ala_residue_altloc \<noteq> ''SER''"
    by (simp add: ala_residue_altloc_def Residue_new_def)
  have h6: "get_unpacked_list (r_child_list ala_residue_altloc) = Inr [ca_A]"
    by (simp add: ala_residue_altloc_def)
  have a: "altloc ca_A = ''A''"
    by (simp add: ca_A_def make_atom_def atom_rec_def)
  have h7: "\<forall>a\<in>set [ca_A]. altloc a \<noteq> '' ''"
    by (simp add: a)
  have h8: "self_segid ala_altloc = Some ''S''" by (simp add: ala_altloc_eq)
  have h9: "\<lparr>dr_id = ('' '', 1, '' ''),
             dr_child_dict = [(''ALA'', ala_residue_altloc),
                              (''SER'', Residue_new ('' '', 1, '' '') ''SER'' ''S'')],
             dr_selected_child = Some ''SER''\<rparr>
            = \<lparr>dr_id = ('' '', 1, '' ''),
               dr_child_dict = [(resname ala_residue_altloc, ala_residue_altloc),
                                (''SER'', Residue_new ('' '', 1, '' '') ''SER'' ''S'')],
               dr_selected_child = Some ''SER''\<rparr>"
    by (simp add: ala_residue_altloc_def Residue_new_def)
  have n: "get_node ala_altloc ''A'' ('' '', 1, '' '') = Some (ResidueNode ala_residue_altloc)"
    using h4 by (simp add: get_node_def ala_altloc_chain)
  from point_mutation_forms_group [OF h1 ala_altloc_chain h3 h4 h5 h6 h7 h8 h9, of no_het]
  show ?thesis using n h6 a by blast
qed



text \<open>
  C8. With a model present, \<open>init_chain\<close> returns, and a second call with the same id
  returns with the same model, the chain of that id as \<open>self.chain\<close> and a warning for
  the discontinuous chain. When the id is in the model at the first call already, that
  call leaves the model as it is and warns too. The number of chains of the id is 1
  afterwards if it was 0 and stays what it was otherwise, and chain ids that were
  distinct stay distinct.
\<close>

theorem init_chain_idempotent:
  assumes m: "self_model b = Some m"
    and w: "w = ChainDiscontinuous chain_id (self_line_counter b)"
  shows "\<exists>b1 b2 m1. init_chain chain_id b = Return b1 \<and> init_chain chain_id b1 = Return b2
           \<and> self_model b1 = Some m1 \<and> self_model b2 = Some m1
           \<and> self_chain b1 = Some chain_id \<and> self_chain b2 = Some chain_id
           \<and> warnings b2 = warnings b1 @ [w]
           \<and> (has_id c_id (m_child_list m) chain_id \<longrightarrow>
                m1 = m \<and> warnings b1 = warnings b @ [w] \<and> get_chain b1 chain_id = get_chain b chain_id)
           \<and> length (filter (\<lambda>c. c_id c = chain_id) (m_child_list m1))
                = max 1 (length (filter (\<lambda>c. c_id c = chain_id) (m_child_list m)))
           \<and> (distinct (map c_id (m_child_list m)) \<longrightarrow> distinct (map c_id (m_child_list m1)))"
proof (cases "has_id c_id (m_child_list m) chain_id")
  case True
  then have "filter (\<lambda>c. c_id c = chain_id) (m_child_list m) \<noteq> []"
    by (auto simp: has_id_def filter_empty_conv)
  then have "length (filter (\<lambda>c. c_id c = chain_id) (m_child_list m)) \<ge> 1"
    by (cases "filter (\<lambda>c. c_id c = chain_id) (m_child_list m)") simp_all
  with True m w show ?thesis
    by (simp add: init_chain_def warn_def get_chain_def max_def)
next
  case False
  then have "filter (\<lambda>c. c_id c = chain_id) (m_child_list m) = []"
    by (auto simp: has_id_def filter_empty_conv)
  with False m w show ?thesis
    by (simp add: init_chain_def warn_def get_chain_def has_id_def PeptideChain_new_def)
qed

theorem init_chain_idempotent_witness:
  "(\<exists>b1. init_chain ''A'' start_builder = Return b1 \<and> get_chain b1 ''A'' = Some (PeptideChain_new ''A'')
      \<and> init_chain ''A'' b1 = Return (warn (ChainDiscontinuous ''A'' 0) b1))
   \<and> has_id c_id [\<lparr>c_id = ''A'', c_child_list = [ResidueNode ala_residue_blank]\<rparr>] ''A''
   \<and> init_chain ''A'' ala_blank = Return (warn (ChainDiscontinuous ''A'' 0) ala_blank)"
  using init_chain_idempotent [where b = start_builder and chain_id = "''A''"
      and m = "\<lparr>m_id = 0, m_child_list = []\<rparr>" and w = "ChainDiscontinuous ''A'' 0"]
    init_chain_idempotent [where b = ala_blank and chain_id = "''A''"
      and m = "\<lparr>m_id = 0, m_child_list = [\<lparr>c_id = ''A'', c_child_list = [ResidueNode ala_residue_blank]\<rparr>]\<rparr>"
      and w = "ChainDiscontinuous ''A'' 0"]
  by (simp add: ala_blank_eq start_builder_def ChmStructureBuilder_new_def init_chain_def has_id_def
      warn_def get_chain_def get_item_def PeptideChain_new_def)

text \<open>
  C9. \<open>finish_chain_construction\<close> on a builder without the attribute \<open>chain\<close> returns
  and leaves the builder as it is, whatever \<open>update\<close> would do.
\<close>

theorem finish_without_chain:
  "self_chain b = None \<Longrightarrow> finish_chain_construction upd b = Return b"
  by (simp add: finish_chain_construction_def)

theorem finish_without_chain_witness:
  "self_chain ChmStructureBuilder_new = None
   \<and> finish_chain_construction (\<lambda>c. c) ChmStructureBuilder_new = Return ChmStructureBuilder_new"
  using finish_without_chain [of ChmStructureBuilder_new "\<lambda>c. c"]
  by (simp add: ChmStructureBuilder_new_def)

text \<open>
  C3, as amended. Let the atom event have a non-blank altloc, let the residue hold a
  plain Atom under the name the event ends up with, and let both atoms have an occupancy
  (the event is not in PQR mode) and different altlocs. Then \<open>init_atom\<close> returns; the
  old atom is detached and a DisorderedAtom under the same name is added at the end of
  the residue; its two children are the new atom and then the old one, in this order;
  the residue is flagged as disordered, \<open>self.atom\<close> is the new atom, and the warning
  for a blank altloc before disorder is given.
\<close>

theorem blank_altloc_before_disorder:
  assumes cur: "self_residue b = Ref cid k" "get_node b cid k = Some node"
      "selected_residue node = Some res"
    and nm: "choose_name (self_line_counter b) res rc = Inr (nm, ws)"
    and alt: "arg_altloc rc \<noteq> '' ''"
    and dup: "get_item atom_node_id (r_child_list res) nm = Some (AtomNode old)"
    and occ: "\<not> arg_is_pqr rc" "arg_occupancy rc = Some o1" "occupancy old = Some o2"
    and da: "altloc old \<noteq> arg_altloc rc"
    and new: "new = make_atom nm rc\<lparr>disordered_flag := True\<rparr>"
  shows "\<exists>b' node' res' g. init_atom rc b = Return b'
      \<and> get_node b' cid k = Some node' \<and> selected_residue node' = Some res'
      \<and> r_child_list res' = detach_child atom_node_id nm (r_child_list res) @ [DisorderedAtomNode g]
      \<and> da_id g = nm
      \<and> da_child_dict g = [(arg_altloc rc, new), (altloc old, old\<lparr>disordered_flag := True\<rparr>)]
      \<and> disordered res' \<and> self_atom b' = Some new
      \<and> warnings b' = warnings b @ ws @ [BlankAltlocBeforeDisorder (self_line_counter b)]"
proof -
  obtain g1 where g1: "da_disordered_add (make_atom nm rc) (DisorderedAtom_new nm) = (None, g1)"
    and g1f: "da_id g1 = nm" "da_child_dict g1 = [(arg_altloc rc, new)]"
    using da_disordered_add_ok [of "make_atom nm rc" o1 "DisorderedAtom_new nm"] occ
    by (auto simp: DisorderedAtom_new_def new)
  obtain g where g: "da_disordered_add old g1 = (None, g)"
    and gf: "da_id g = nm"
      "da_child_dict g = [(arg_altloc rc, new), (altloc old, old\<lparr>disordered_flag := True\<rparr>)]"
    using da_disordered_add_ok [of old o2 g1] occ g1f da by auto
  define res' where "res' = res\<lparr>r_child_list :=
      detach_child atom_node_id nm (r_child_list res) @ [DisorderedAtomNode g], disordered := True\<rparr>"
  have pl: "place_atom (is_wrapper node) (self_line_counter b) (make_atom nm rc) res
            = (None, res', [BlankAltlocBeforeDisorder (self_line_counter b)], new)"
    using alt dup g1 g by (simp add: place_atom_def res'_def new)
  have rid: "r_id res' = r_id res" by (simp add: res'_def)
  from init_atom_placed [OF cur nm pl rid] show ?thesis
    using gf by (auto simp: res'_def)
qed

theorem blank_altloc_before_disorder_witness:
  "get_node ala_blank ''A'' ('' '', 1, '' '') = Some (ResidueNode ala_residue_blank)
   \<and> get_item atom_node_id (r_child_list ala_residue_blank) ''CA'' = Some (AtomNode ca_blank)
   \<and> (\<exists>b' node' res' g. init_atom (atom_rec ''CA'' '' CA '' ''A'' 1) ala_blank = Return b'
        \<and> get_node b' ''A'' ('' '', 1, '' '') = Some node' \<and> selected_residue node' = Some res'
        \<and> r_child_list res' = [DisorderedAtomNode g]
        \<and> da_id g = ''CA''
        \<and> da_child_dict g = [(''A'', ca_A), ('' '', ca_blank\<lparr>disordered_flag := True\<rparr>)]
        \<and> disordered res' \<and> self_atom b' = Some ca_A
        \<and> warnings b' = [BlankAltlocBeforeDisorder 0])"
proof -
  have h1: "self_residue ala_blank = Ref ''A'' ('' '', 1, '' '')" by (simp add: ala_blank_eq)
  have h2: "get_node ala_blank ''A'' ('' '', 1, '' '') = Some (ResidueNode ala_residue_blank)"
    by (simp add: get_node_def ala_blank_chain get_item_def ala_residue_blank_def Residue_new_def)
  have h3: "selected_residue (ResidueNode ala_residue_blank) = Some ala_residue_blank" by simp
  have h4: "choose_name (self_line_counter ala_blank) ala_residue_blank (atom_rec ''CA'' '' CA '' ''A'' 1)
            = Inr (''CA'', [])"
    by (simp add: choose_name_def get_item_def ala_residue_blank_def ca_blank_def make_atom_def
        atom_rec_def)
  have h5: "arg_altloc (atom_rec ''CA'' '' CA '' ''A'' 1) \<noteq> '' ''" by (simp add: atom_rec_def)
  have h6: "get_item atom_node_id (r_child_list ala_residue_blank) ''CA'' = Some (AtomNode ca_blank)"
    by (simp add: get_item_def ala_residue_blank_def ca_blank_def make_atom_def atom_rec_def)
  have h7: "\<not> arg_is_pqr (atom_rec ''CA'' '' CA '' ''A'' 1)" by (simp add: atom_rec_def)
  have h8: "arg_occupancy (atom_rec ''CA'' '' CA '' ''A'' 1) = Some 1" by (simp add: atom_rec_def)
  have h9: "occupancy ca_blank = Some 1" by (simp add: ca_blank_def make_atom_def atom_rec_def)
  have h10: "altloc ca_blank \<noteq> arg_altloc (atom_rec ''CA'' '' CA '' ''A'' 1)"
    by (simp add: ca_blank_def make_atom_def atom_rec_def)
  have h11: "ca_A = make_atom ''CA'' (atom_rec ''CA'' '' CA '' ''A'' 1)\<lparr>disordered_flag := True\<rparr>"
    by (simp add: ca_A_def)
  have d: "detach_child atom_node_id ''CA'' (r_child_list ala_residue_blank) = []"
    by (simp add: detach_child_def ala_residue_blank_def ca_blank_def make_atom_def atom_rec_def)
  have a: "arg_altloc (atom_rec ''CA'' '' CA '' ''A'' 1) = ''A''" "altloc ca_blank = '' ''"
    "warnings ala_blank = []" "self_line_counter ala_blank = 0"
    by (simp_all add: atom_rec_def ca_blank_def make_atom_def ala_blank_eq)
  from blank_altloc_before_disorder [OF h1 h2 h3 h4 h5 h6 h7 h8 h9 h10 h11]
  show ?thesis using h2 h6 unfolding d a by simp
qed

text \<open>
  The specification has the old atom added first. In the example the residue
  holds CA with a blank altloc and CA arrives with altloc A: the altlocs of the children
  of the DisorderedAtom are A and then blank, and the new atom is the selected one.
\<close>

theorem new_atom_added_first_counterexample:
  "get_node ala_blank ''A'' ('' '', 1, '' '') = Some (ResidueNode ala_residue_blank)
   \<and> r_child_list ala_residue_blank = [AtomNode ca_blank]
   \<and> init_atom (atom_rec ''CA'' '' CA '' ''A'' 1) ala_blank
       = Return (state_of (init_atom (atom_rec ''CA'' '' CA '' ''A'' 1) ala_blank))
   \<and> get_node (state_of (init_atom (atom_rec ''CA'' '' CA '' ''A'' 1) ala_blank)) ''A'' ('' '', 1, '' '')
       = Some (ResidueNode (ala_residue_blank
           \<lparr>disordered := True,
            r_child_list :=
              [DisorderedAtomNode
                 \<lparr>da_id = ''CA'',
                  da_child_dict = [(''A'', ca_A), ('' '', ca_blank\<lparr>disordered_flag := True\<rparr>)],
                  da_selected_child = Some ca_A, last_occupancy = 1\<rparr>]\<rparr>))
   \<and> map fst [(''A'', ca_A), ('' '', ca_blank\<lparr>disordered_flag := True\<rparr>)] \<noteq> ['' '', ''A'']"
  by (simp add: ala_blank_eq ala_residue_blank_def ca_blank_def ca_A_def builder_defs)

text \<open>
  C5, as amended. With a chain at the cursor, and an \<open>update\<close> that keeps the id of the
  chain and its children up to their order, \<open>finish_chain_construction\<close> returns and
  the children of the chain are the old ones with \<open>reset_node\<close> applied. A reset
  DisorderedResidue has its id and children as before; its selected child is the last
  child, in the order of insertion, whose id is the id of the wrapper, whatever was
  selected before, and the selection is as before when no child has that id.
\<close>

theorem finish_selects_last_matching_child:
  assumes upd: "\<And>c. c_id (upd c) = c_id c"
      "\<And>c. mset (c_child_list (upd c)) = mset (c_child_list c)"
    and ch: "self_chain b = Some cid" "get_chain b cid = Some c"
  shows "\<exists>b' c'. finish_chain_construction upd b = Return b'
           \<and> get_chain b' cid = Some c'
           \<and> set (c_child_list c') = reset_node ` set (c_child_list c)
           \<and> (\<forall>g. reset_node (DisorderedResidueNode g) = DisorderedResidueNode (reset_disordered_res g)
                 \<and> dr_id (reset_disordered_res g) = dr_id g
                 \<and> dr_child_dict (reset_disordered_res g) = dr_child_dict g
                 \<and> dr_selected_child (reset_disordered_res g)
                     = (case filter (\<lambda>(rn, child). r_id child = dr_id g) (dr_child_dict g) of
                          [] \<Rightarrow> dr_selected_child g
                        | m # ms \<Rightarrow> Some (fst (last (m # ms)))))"
proof -
  define f where "f = (\<lambda>c :: Chain. upd (c\<lparr>c_child_list := map reset_node (c_child_list c)\<rparr>))"
  have 1: "finish_chain_construction upd b = Return (update_chain cid f b)"
    using ch by (simp add: finish_chain_construction_def f_def)
  have cid: "c_id c = cid"
    using ch(2) by (auto simp: get_chain_def split: option.splits dest: get_item_SomeD)
  have 2: "get_chain (update_chain cid f b) cid = Some (f c)"
    using ch(2) by (rule get_chain_update_chain_first) (simp add: f_def upd(1) cid)
  have "mset (c_child_list (f c)) = mset (map reset_node (c_child_list c))"
    by (simp add: f_def upd(2))
  then have 3: "set (c_child_list (f c)) = reset_node ` set (c_child_list c)"
    by (metis mset_eq_setD set_map)
  have 4: "dr_selected_child (reset_disordered_res g)
             = (case filter (\<lambda>(rn, child). r_id child = dr_id g) (dr_child_dict g) of
                  [] \<Rightarrow> dr_selected_child g
                | m # ms \<Rightarrow> Some (fst (last (m # ms))))" for g
    unfolding reset_disordered_res_def by (rule reset_fold_selected)
  have 5: "reset_node (DisorderedResidueNode g) = DisorderedResidueNode (reset_disordered_res g)
           \<and> dr_id (reset_disordered_res g) = dr_id g
           \<and> dr_child_dict (reset_disordered_res g) = dr_child_dict g" for g
    by (simp add: reset_disordered_res_fields)
  show ?thesis
    using 1 2 3 4 5 by blast
qed

theorem finish_selects_last_matching_child_witness:
  "self_chain (mutated ''SER'') = Some ''A''
   \<and> get_chain (mutated ''SER'') ''A''
       = Some \<lparr>c_id = ''A'', c_child_list = [DisorderedResidueNode (mutation_group ''SER'')]\<rparr>
   \<and> (\<exists>b' c'. finish_chain_construction (\<lambda>c. c) (mutated ''SER'') = Return b'
         \<and> get_chain b' ''A'' = Some c'
         \<and> set (c_child_list c') = {DisorderedResidueNode (mutation_group ''SER'')})"
proof -
  have h1: "self_chain (mutated ''SER'') = Some ''A''" by (simp add: mutated_def)
  have h2: "get_chain (mutated ''SER'') ''A''
       = Some \<lparr>c_id = ''A'', c_child_list = [DisorderedResidueNode (mutation_group ''SER'')]\<rparr>"
    by (simp add: mutated_def get_chain_def get_item_def)
  from finish_selects_last_matching_child [of "\<lambda>c. c", OF _ _ h1 h2]
  show ?thesis using h1 h2 by (simp add: reset_mutation_group) blast
qed

text \<open>
  The specification lets a selection made during the stream stand. In the
  example the second ALA event selects ALA in a DisorderedResidue that had SER
  selected; both children have the id of the wrapper, and after the end of the chain
  SER is selected again.
\<close>

theorem finish_overrides_selection_counterexample:
  "get_node (run no_het (\<lambda>c. c) (butlast mutation_events) start_builder) ''A'' ('' '', 1, '' '')
     = Some (DisorderedResidueNode (mutation_group ''SER''))
   \<and> get_node (run no_het (\<lambda>c. c) mutation_events start_builder) ''A'' ('' '', 1, '' '')
     = Some (DisorderedResidueNode (mutation_group ''ALA''))
   \<and> get_node (run no_het (\<lambda>c. c) (mutation_events @ [EndChain]) start_builder) ''A'' ('' '', 1, '' '')
     = Some (DisorderedResidueNode (mutation_group ''SER''))
   \<and> dr_selected_child (mutation_group ''ALA'') = Some ''ALA''
   \<and> dr_selected_child (mutation_group ''SER'') \<noteq> Some ''ALA''"
proof -
  have 1: "get_node (mutated sel) ''A'' ('' '', 1, '' '') = Some (DisorderedResidueNode (mutation_group sel))"
    for sel
    by (simp add: mutated_def get_node_def get_chain_def get_item_def mutation_group_def)
  have 2: "get_node (run no_het (\<lambda>c. c) (mutation_events @ [EndChain]) start_builder)
             ''A'' ('' '', 1, '' '')
           = Some (DisorderedResidueNode (mutation_group ''SER''))"
    unfolding run_mutation_events_end
    by (simp add: get_node_def get_chain_def get_item_def mutation_group_def)
  show ?thesis
    using 1 [of "''ALA''"] 1 [of "''SER''"] 2 run_mutation_events run_butlast_mutation_events
    by (simp add: mutation_group_def)
qed

text \<open>
  C6. With an \<open>update\<close> that keeps the id of the chain and its children up to their
  order, every event keeps the keys unique, in the state it returns and in the state it
  leaves when it raises; so does every stream of events, among them the streams that
  end with the end of a chain; and then every chain of the model has at most one node
  under any residue key.
\<close>

theorem residue_keys_stay_unique:
  assumes upd: "\<And>c. c_id (upd c) = c_id c"
      "\<And>c. mset (c_child_list (upd c)) = mset (c_child_list c)"
    and ku: "keys_unique b"
  shows "keys_unique (state_of (step fhs upd e b))
         \<and> keys_unique (run fhs upd es b)
         \<and> (\<forall>m c k. self_model (run fhs upd es b) = Some m \<longrightarrow> c \<in> set (m_child_list m)
               \<longrightarrow> length (filter (\<lambda>n. res_node_id n = k) (c_child_list c)) \<le> 1)"
proof -
  have 1: "keys_unique (state_of (step fhs upd e b))"
    using upd ku by (rule keys_unique_step)
  have 2: "keys_unique (run fhs upd es b)"
    using upd ku by (rule keys_unique_run)
  have 3: "length (filter (\<lambda>n. res_node_id n = k) (c_child_list c)) \<le> 1"
    if "self_model (run fhs upd es b) = Some m" "c \<in> set (m_child_list m)" for m c k
  proof -
    have "distinct (map res_node_id (c_child_list c))"
      using 2 that by (auto simp: keys_unique_def)
    then show ?thesis by (rule distinct_filter_key_le1)
  qed
  show ?thesis using 1 2 3 by blast
qed

theorem residue_keys_stay_unique_witness:
  "keys_unique start_builder
   \<and> keys_unique (state_of (step no_het (\<lambda>c. c) (BeginChain ''A'') start_builder))
   \<and> keys_unique (run no_het (\<lambda>c. c) (mutation_events @ [EndChain]) start_builder)
   \<and> self_model (run no_het (\<lambda>c. c) (mutation_events @ [EndChain]) start_builder)
       = Some \<lparr>m_id = 0, m_child_list =
           [\<lparr>c_id = ''A'', c_child_list = [DisorderedResidueNode (mutation_group ''SER'')]\<rparr>]\<rparr>
   \<and> length (filter (\<lambda>n. res_node_id n = ('' '', 1, '' ''))
        (c_child_list \<lparr>c_id = ''A'', c_child_list = [DisorderedResidueNode (mutation_group ''SER'')]\<rparr>))
       \<le> 1"
proof -
  have h: "keys_unique start_builder"
    by (simp add: keys_unique_def start_builder_def ChmStructureBuilder_new_def)
  have m: "self_model (run no_het (\<lambda>c. c) (mutation_events @ [EndChain]) start_builder)
       = Some \<lparr>m_id = 0, m_child_list =
           [\<lparr>c_id = ''A'', c_child_list = [DisorderedResidueNode (mutation_group ''SER'')]\<rparr>]\<rparr>"
    by (simp add: run_mutation_events_end)
  from residue_keys_stay_unique [of "\<lambda>c. c", OF _ _ h, of no_het "BeginChain ''A''"
      "mutation_events @ [EndChain]"]
  have "keys_unique (state_of (step no_het (\<lambda>c. c) (BeginChain ''A'') start_builder))
        \<and> keys_unique (run no_het (\<lambda>c. c) (mutation_events @ [EndChain]) start_builder)
        \<and> (\<forall>m c k. self_model (run no_het (\<lambda>c. c) (mutation_events @ [EndChain]) start_builder) = Some m
              \<longrightarrow> c \<in> set (m_child_list m)
              \<longrightarrow> length (filter (\<lambda>n. res_node_id n = k) (c_child_list c)) \<le> 1)"
    by simp
  then show ?thesis
    using h m by simp
qed




section \<open>Properties of \<open>Bond\<close>\<close>

text \<open>
  C10. Whatever the two atoms and whatever \<open>bond_type\<close> is, a constructed Bond carries
  the given \<open>bond_type\<close> in its type field and \<open>None\<close> in its order field, also for the
  four names the order table knows; and the constructor does return a Bond for every
  pair of atoms whose full ids are present.
\<close>

theorem Bond_new_order_None:
  "(\<forall>b. Bond_new a1 a2 btype prm = Inr b \<longrightarrow> bond_type b = btype \<and> order b = None)
   \<and> (full_id a1 \<noteq> None \<and> full_id a2 \<noteq> None \<longrightarrow> (\<exists>b. Bond_new a1 a2 btype prm = Inr b))
   \<and> bond_order_dict (Str ''single'') = Some 1 \<and> bond_order_dict (Str ''double'') = Some 2
   \<and> bond_order_dict (Str ''triple'') = Some 3 \<and> bond_order_dict (Str ''aromatic'') = Some 2"
  by (auto simp: Bond_new_def create_full_id_def bond_order_dict_def split: option.splits)

theorem Bond_new_order_None_witness:
  "Bond_new \<lparr>full_id = Some (1::int)\<rparr> \<lparr>full_id = Some 2\<rparr> (Str ''double'') NoneObj
     = Inr \<lparr>atom1 = \<lparr>full_id = Some 1\<rparr>, atom2 = \<lparr>full_id = Some 2\<rparr>, bond_type = Str ''double'',
            order = None, param = NoneObj, bond_full_id = (1, 2)\<rparr>
   \<and> bond_order_dict (Str ''double'') = Some 2"
  using Bond_new_order_None [of "\<lparr>full_id = Some (1::int)\<rparr>" "\<lparr>full_id = Some 2\<rparr>" "Str ''double''" NoneObj]
  by (auto simp: Bond_new_def create_full_id_def bond_order_dict_def)

end
